theory Spec2Isabelle
  imports Complex_Main "HOL-Library.AList"
begin

section \<open>RAGService: knowledge-base registry, search and result cache\<close>

text \<open>
  A shallow embedding of \<^verbatim>\<open>src/RAGService.ts\<close>. Conventions:
  \<^item> a JavaScript \<^verbatim>\<open>number\<close> holding a distance, a score or a latency is a \<open>real\<close>
    (exact arithmetic; rounding of IEEE doubles is not modelled), a count or an ordinal is
    a \<open>nat\<close>, the requested \<open>k\<close>, clock readings and cache sizes are \<open>int\<close>;
  \<^item> a JavaScript \<^verbatim>\<open>Map\<close> is an association list in insertion order with distinct keys:
    \<open>map_of\<close> is \<^verbatim>\<open>get\<close>, \<open>AList.update\<close> is \<^verbatim>\<open>set\<close> (in place for a key already there,
    appended otherwise), \<open>AList.delete\<close> is \<^verbatim>\<open>delete\<close>;
  \<^item> a chunk map (a plain object keyed by ordinal) is a map \<open>nat \<rightharpoonup> chunk\<close>;
  \<^item> every method takes the service state and returns the new one next to its result;
    a rejected promise is \<open>Inl\<close> of an \<open>error\<close>;
  \<^item> what the service reaches outside itself is a parameter: the embedding endpoint
    (\<open>fetchEmbeddings\<close>), the MD5 digest (\<open>md5hex\<close>), the nearest-neighbour query of the
    vector index (\<open>searchKnn\<close>), the clock (\<open>clock\<close>, \<open>now\<close>), and the working directory
    (\<open>files\<close>, a field of the state);
  \<^item> log lines are not part of the model.
\<close>

subsection \<open>JavaScript values\<close>

type_synonym vector = "real list"

datatype error =
    NetworkError
  | EmbeddingApiError string
  | TypeError
  | FileNotFound
  | CorruptIndex
  | JsonSyntaxError
  | CapacityExceeded
  | IndexQueryError

datatype jsvalue =
    JUndefined
  | JNull
  | JBool bool
  | JNumber real
  | JString string
  | JDate int

text \<open>Truthiness, as \<^verbatim>\<open>||\<close> and \<^verbatim>\<open>if\<close> read a value.\<close>

fun truthy :: "jsvalue \<Rightarrow> bool" where
  "truthy JUndefined = False"
| "truthy JNull = False"
| "truthy (JBool b) = b"
| "truthy (JNumber x) = (x \<noteq> 0)"
| "truthy (JString s) = (s \<noteq> [])"
| "truthy (JDate t) = True"

type_synonym jsobject = "(string \<times> jsvalue) list"

text \<open>Property read \<^verbatim>\<open>o?.key\<close>: \<^verbatim>\<open>undefined\<close> when the object or the property is missing.\<close>

definition getProp :: "jsobject option \<Rightarrow> string \<Rightarrow> jsvalue" where
  "getProp ob key =
     (case ob of
        None \<Rightarrow> JUndefined
      | Some fields \<Rightarrow> (case map_of fields key of None \<Rightarrow> JUndefined | Some v \<Rightarrow> v))"

text \<open>Decimal rendering of an integer inside a template literal.\<close>

fun natToString :: "nat \<Rightarrow> string" where
  "natToString n =
     (if n < 10 then [''0123456789'' ! n]
      else natToString (n div 10) @ [''0123456789'' ! (n mod 10)])"

declare natToString.simps [simp del]

definition numberToString :: "int \<Rightarrow> string" where
  "numberToString k =
     (if k < 0 then ''-'' @ natToString (nat (- k)) else natToString (nat k))"

subsection \<open>Documents, chunks and results\<close>

record document =
  doc_id :: "string option"
  doc_content :: string
  doc_knowledgeBase :: string
  doc_metadata :: "jsobject option"

record partialDocument =
  part_content :: "string option"
  part_knowledgeBase :: "string option"
  part_metadata :: "jsobject option"

record chunk =
  chunk_id :: string
  chunk_text :: string
  chunk_source :: jsvalue
  chunk_timestamp :: jsvalue
  chunk_metadata :: "jsobject option"

type_synonym chunkMap = "nat \<rightharpoonup> chunk"

record ragResult =
  res_id :: string
  res_content :: string
  res_score :: real
  res_metadata :: jsobject

record searchOptions =
  opt_query :: string
  opt_knowledgeBase :: string
  opt_k :: "int option"
  opt_similarityThreshold :: "real option"

subsection \<open>SearchCache\<close>

record cacheEntry =
  result :: "ragResult list"
  timestamp :: int

record searchCache =
  cache :: "(string \<times> cacheEntry) list"
  hits :: nat
  misses :: nat
  maxSize :: int
  ttl :: int

definition getCacheKey :: "(vector \<Rightarrow> string) \<Rightarrow> string \<Rightarrow> vector \<Rightarrow> int \<Rightarrow> string" where
  "getCacheKey md5 knowledgeBase queryVector k =
     knowledgeBase @ ''-'' @ md5 queryVector @ ''-'' @ numberToString k"

text \<open>
  \<^verbatim>\<open>get\<close>: a live entry is a hit and leaves the map as it is; anything else deletes the
  key and counts a miss. \<open>now\<close> is the reading of \<^verbatim>\<open>Date.now()\<close>.
\<close>

definition SearchCache_get ::
  "(vector \<Rightarrow> string) \<Rightarrow> int \<Rightarrow> searchCache \<Rightarrow> string \<Rightarrow> vector \<Rightarrow> int
     \<Rightarrow> ragResult list option \<times> searchCache" where
  "SearchCache_get md5 now c knowledgeBase queryVector k =
     (let key = getCacheKey md5 knowledgeBase queryVector k in
      case map_of (cache c) key of
        Some entry \<Rightarrow>
          if now - timestamp entry < ttl c
          then (Some (result entry), c\<lparr>hits := hits c + 1\<rparr>)
          else (None, c\<lparr>cache := AList.delete key (cache c), misses := misses c + 1\<rparr>)
      | None \<Rightarrow> (None, c\<lparr>cache := AList.delete key (cache c), misses := misses c + 1\<rparr>))"

text \<open>
  \<^verbatim>\<open>set\<close>: when the map is full its first key (the earliest inserted) is deleted, provided
  that key is truthy (\<^verbatim>\<open>undefined\<close> on an empty map, or the empty string, is not); then
  the entry is stored.
\<close>

definition SearchCache_set ::
  "(vector \<Rightarrow> string) \<Rightarrow> int \<Rightarrow> searchCache \<Rightarrow> string \<Rightarrow> vector \<Rightarrow> int \<Rightarrow> ragResult list
     \<Rightarrow> searchCache" where
  "SearchCache_set md5 now c knowledgeBase queryVector k res =
     (let key = getCacheKey md5 knowledgeBase queryVector k;
          evicted =
            (if int (length (cache c)) \<ge> maxSize c then
               (case cache c of
                  [] \<Rightarrow> cache c
                | (firstKey, _) # _ \<Rightarrow>
                    if firstKey \<noteq> [] then AList.delete firstKey (cache c) else cache c)
             else cache c)
      in c\<lparr>cache := AList.update key \<lparr>result = res, timestamp = now\<rparr> evicted\<rparr>)"

record cacheStats =
  stat_hits :: nat
  stat_misses :: nat
  stat_hitRateNumber :: real
  stat_size :: nat
  stat_maxSize :: int

definition getStats :: "searchCache \<Rightarrow> cacheStats" where
  "getStats c =
     (let total = hits c + misses c;
          hitRateNum = (if total > 0 then real (hits c) / real total * 100 else 0)
      in \<lparr>stat_hits = hits c, stat_misses = misses c, stat_hitRateNumber = hitRateNum,
          stat_size = length (cache c), stat_maxSize = maxSize c\<rparr>)"

definition clear :: "searchCache \<Rightarrow> searchCache" where
  "clear c = c\<lparr>cache := [], hits := 0, misses := 0\<rparr>"

subsection \<open>The vector index\<close>

text \<open>
  Modelled from the spec: the vector index (\<^verbatim>\<open>HierarchicalNSW\<close> of the library
  \<^verbatim>\<open>hnswlib-node\<close>) is not part of the repository. Section 4.1 of the specification gives
  its contract: an index has a fixed dimension and a capacity that is a hard ceiling until
  grown; \<^verbatim>\<open>insert(vector, ordinal)\<close> adds one point and fails with \<^verbatim>\<open>CapacityExceeded\<close>
  if \<open>ordinal \<ge> capacity\<close>; \<^verbatim>\<open>grow(newCapacity)\<close> reallocates to a larger capacity;
  \<^verbatim>\<open>currentCount()\<close> and \<^verbatim>\<open>capacity()\<close> inspect. The points are kept in insertion order
  with their ordinals. The nearest-neighbour query itself is the parameter \<open>searchKnn\<close>.
  The index has \<^verbatim>\<open>getMaxElements\<close> and \<^verbatim>\<open>resizeIndex\<close>, so the service's tests that
  they are functions hold.
\<close>

record hnsw =
  dim :: nat
  maxElements :: nat
  ef :: nat
  points :: "(nat \<times> vector) list"

definition initIndex :: "nat \<Rightarrow> nat \<Rightarrow> hnsw" where
  "initIndex dimensions capacity =
     \<lparr>dim = dimensions, maxElements = capacity, ef = 0, points = []\<rparr>"

definition setEf :: "hnsw \<Rightarrow> nat \<Rightarrow> hnsw" where
  "setEf index e = index\<lparr>ef := e\<rparr>"

definition getCurrentCount :: "hnsw \<Rightarrow> nat" where
  "getCurrentCount index = length (points index)"

definition getMaxElements :: "hnsw \<Rightarrow> nat" where
  "getMaxElements index = maxElements index"

definition resizeIndex :: "hnsw \<Rightarrow> nat \<Rightarrow> hnsw" where
  "resizeIndex index newCapacity = index\<lparr>maxElements := newCapacity\<rparr>"

definition addPoint :: "hnsw \<Rightarrow> vector \<Rightarrow> nat \<Rightarrow> error + hnsw" where
  "addPoint index v ordinal =
     (if ordinal \<ge> maxElements index then Inl CapacityExceeded
      else Inr (index\<lparr>points := points index @ [(ordinal, v)]\<rparr>))"

subsection \<open>The world outside the service\<close>

text \<open>
  The answer of the embedding endpoint to one \<^verbatim>\<open>fetch\<close>: the request fails, the response
  is not \<^verbatim>\<open>ok\<close> (with its status text), its body does not have the expected shape, or it
  carries one embedding per \<^verbatim>\<open>data\<close> item.
\<close>

datatype response =
    Rejected
  | NotOk string
  | Malformed
  | Ok "vector list"

record externals =
  fetchEmbeddings :: "string list \<Rightarrow> response"
  md5hex :: "vector \<Rightarrow> string"
  searchKnn :: "hnsw \<Rightarrow> vector \<Rightarrow> int \<Rightarrow> error + (nat \<times> real) list"

text \<open>
  \<open>searchKnn index q k\<close> is the library's answer to \<^verbatim>\<open>index.searchKnn(q, k)\<close>: it throws, or
  it gives the neighbours as pairs of an ordinal (\<^verbatim>\<open>neighbors[i]\<close>) and a distance
  (\<^verbatim>\<open>distances[i]\<close>).

  The four readings of \<^verbatim>\<open>Date.now()\<close> one \<^verbatim>\<open>search\<close> can make: at its start, inside the
  cache lookup, inside the cache store, and when the duration is taken.
\<close>

record clock =
  tStart :: int
  tGet :: int
  tSet :: int
  tEnd :: int

text \<open>
  A file of the working directory is represented by what its reader makes of it: bytes
  that \<^verbatim>\<open>readIndex\<close> decodes to an index, text that \<^verbatim>\<open>JSON.parse\<close> decodes to a chunk
  map, or content that neither accepts. Writing a file and deleting an existing file are
  taken to succeed; a missing file is the failure that is modelled.
\<close>

datatype fileContent =
    IndexBytes hnsw
  | ChunkJson chunkMap
  | Garbage

type_synonym disk = "string \<rightharpoonup> fileContent"

definition readIndex :: "disk \<Rightarrow> string \<Rightarrow> error + hnsw" where
  "readIndex fs filePath =
     (case fs filePath of
        None \<Rightarrow> Inl FileNotFound
      | Some (IndexBytes index) \<Rightarrow> Inr index
      | Some _ \<Rightarrow> Inl CorruptIndex)"

text \<open>\<^verbatim>\<open>JSON.parse(await fs.readFile(chunkPath, 'utf-8'))\<close>.\<close>

definition readChunkMap :: "disk \<Rightarrow> string \<Rightarrow> error + chunkMap" where
  "readChunkMap fs filePath =
     (case fs filePath of
        None \<Rightarrow> Inl FileNotFound
      | Some (ChunkJson chunkMap) \<Rightarrow> Inr chunkMap
      | Some _ \<Rightarrow> Inl JsonSyntaxError)"

definition unlink :: "disk \<Rightarrow> string \<Rightarrow> error + disk" where
  "unlink fs filePath =
     (case fs filePath of
        None \<Rightarrow> Inl FileNotFound
      | Some _ \<Rightarrow> Inr (fs(filePath := None)))"

subsection \<open>RAGService: state\<close>

record config =
  workDir :: string
  dimensions :: nat
  cacheSize :: int
  cacheTTL :: int
  efSearch :: nat

record stats =
  totalSearches :: nat
  avgSearchTime :: real

record ragService =
  config :: config
  indices :: "(string \<times> hnsw) list"
  chunkMaps :: "(string \<times> chunkMap) list"
  searchCache :: searchCache
  stats :: stats
  files :: disk

definition getDimensions :: "ragService \<Rightarrow> nat" where
  "getDimensions s = (if dimensions (config s) \<noteq> 0 then dimensions (config s) else 1536)"

text \<open>\<^verbatim>\<open>path.join(workDir, name + suffix)\<close>, for a plain file name.\<close>

definition indexPath :: "ragService \<Rightarrow> string \<Rightarrow> string" where
  "indexPath s name = workDir (config s) @ ''/'' @ name @ ''.hnsw''"

definition chunkPath :: "ragService \<Rightarrow> string \<Rightarrow> string" where
  "chunkPath s name = workDir (config s) @ ''/'' @ name @ ''.chunks.json''"

text \<open>\<^verbatim>\<open>this.chunkMaps.get(knowledgeBase) || {}\<close>.\<close>

definition chunkMapOf :: "ragService \<Rightarrow> string \<Rightarrow> chunkMap" where
  "chunkMapOf s knowledgeBase =
     (case map_of (chunkMaps s) knowledgeBase of None \<Rightarrow> Map.empty | Some m \<Rightarrow> m)"

subsection \<open>RAGService: private methods\<close>

definition getEmbeddings :: "externals \<Rightarrow> string list \<Rightarrow> error + vector list" where
  "getEmbeddings ext texts =
     (case fetchEmbeddings ext texts of
        Rejected \<Rightarrow> Inl NetworkError
      | NotOk statusText \<Rightarrow> Inl (EmbeddingApiError statusText)
      | Malformed \<Rightarrow> Inl TypeError
      | Ok embeddings \<Rightarrow> Inr embeddings)"

text \<open>\<^verbatim>\<open>embeddings[0]\<close>: \<open>None\<close> is \<^verbatim>\<open>undefined\<close>, when the endpoint sent no embedding.\<close>

definition getEmbedding :: "externals \<Rightarrow> string \<Rightarrow> error + vector option" where
  "getEmbedding ext text =
     (case getEmbeddings ext [text] of
        Inl e \<Rightarrow> Inl e
      | Inr embeddings \<Rightarrow> (case embeddings of [] \<Rightarrow> Inr None | v # _ \<Rightarrow> Inr (Some v)))"

text \<open>
  \<^verbatim>\<open>getOrLoadIndex\<close>: the index in memory, or the one loaded from the two files; every
  failure of the load is caught and answered with \<^verbatim>\<open>null\<close> (\<open>None\<close>).
\<close>

definition getOrLoadIndex :: "ragService \<Rightarrow> string \<Rightarrow> hnsw option \<times> ragService" where
  "getOrLoadIndex s knowledgeBase =
     (case map_of (indices s) knowledgeBase of
        Some index \<Rightarrow> (Some index, s)
      | None \<Rightarrow>
          (case readIndex (files s) (indexPath s knowledgeBase) of
             Inl _ \<Rightarrow> (None, s)
           | Inr loaded \<Rightarrow>
               (let index = setEf loaded (efSearch (config s)) in
                case readChunkMap (files s) (chunkPath s knowledgeBase) of
                  Inl _ \<Rightarrow> (None, s)
                | Inr chunkMap \<Rightarrow>
                    (Some index,
                     s\<lparr>indices := AList.update knowledgeBase index (indices s),
                       chunkMaps := AList.update knowledgeBase chunkMap (chunkMaps s)\<rparr>))))"

definition recordMetric :: "ragService \<Rightarrow> string \<Rightarrow> real \<Rightarrow> ragService" where
  "recordMetric s type duration =
     (if type = ''search'' then
        (let total = totalSearches (stats s) + 1 in
         s\<lparr>stats := \<lparr>totalSearches = total,
                      avgSearchTime =
                        (avgSearchTime (stats s) * real (total - 1) + duration) / real total\<rparr>\<rparr>)
      else s)"

definition saveIndex :: "ragService \<Rightarrow> string \<Rightarrow> hnsw \<Rightarrow> ragService" where
  "saveIndex s name index = s\<lparr>files := (files s)(indexPath s name \<mapsto> IndexBytes index)\<rparr>"

definition saveChunkMap :: "ragService \<Rightarrow> string \<Rightarrow> chunkMap \<Rightarrow> ragService" where
  "saveChunkMap s name chunkMap = s\<lparr>files := (files s)(chunkPath s name \<mapsto> ChunkJson chunkMap)\<rparr>"

text \<open>The chunk stored for a document at ordinal \<open>currentIdx\<close>.\<close>

definition makeChunk :: "int \<Rightarrow> document \<Rightarrow> nat \<Rightarrow> chunk" where
  "makeChunk now d currentIdx =
     \<lparr>chunk_id =
        (case doc_id d of
           None \<Rightarrow> ''doc-'' @ natToString currentIdx
         | Some i \<Rightarrow> if i \<noteq> [] then i else ''doc-'' @ natToString currentIdx),
      chunk_text = doc_content d,
      chunk_source = getProp (doc_metadata d) ''source'',
      chunk_timestamp =
        (if truthy (getProp (doc_metadata d) ''timestamp'')
         then getProp (doc_metadata d) ''timestamp'' else JDate now),
      chunk_metadata = doc_metadata d\<rparr>"

text \<open>
  The insertion loop of \<^verbatim>\<open>addDocumentsToKB\<close>, over the embeddings: each is added to the
  index at \<open>currentIdx\<close> and the chunk of the document beside it is stored there. It stops
  at the first failure, with the index and the chunk map as they are then: \<^verbatim>\<open>addPoint\<close>
  throws, or there is no document left for the embedding (\<^verbatim>\<open>docs[i]\<close> is \<^verbatim>\<open>undefined\<close>).
\<close>

fun addPoints ::
  "int \<Rightarrow> vector list \<Rightarrow> document list \<Rightarrow> nat \<Rightarrow> hnsw \<Rightarrow> chunkMap
     \<Rightarrow> error option \<times> hnsw \<times> chunkMap" where
  "addPoints now [] docs currentIdx index chunkMap = (None, index, chunkMap)"
| "addPoints now (e # es) docs currentIdx index chunkMap =
     (case addPoint index e currentIdx of
        Inl err \<Rightarrow> (Some err, index, chunkMap)
      | Inr index' \<Rightarrow>
          (case docs of
             [] \<Rightarrow> (Some TypeError, index', chunkMap)
           | d # ds \<Rightarrow>
               addPoints now es ds (currentIdx + 1) index'
                 (chunkMap(currentIdx \<mapsto> makeChunk now d currentIdx))))"

text \<open>
  \<^verbatim>\<open>addDocumentsToKB\<close>. The third component lists the capacities passed to
  \<^verbatim>\<open>resizeIndex\<close> during the call. The index and a chunk map already registered are
  mutated in place, so a failure inside the loop leaves them as the loop left them.
\<close>

definition addDocumentsToKB ::
  "externals \<Rightarrow> int \<Rightarrow> ragService \<Rightarrow> string \<Rightarrow> document list
     \<Rightarrow> (error + unit) \<times> ragService \<times> nat list" where
  "addDocumentsToKB ext now s knowledgeBase docs =
     (case getEmbeddings ext (map doc_content docs) of
        Inl e \<Rightarrow> (Inl e, s, [])
      | Inr embeddings \<Rightarrow>
          (let chunkMap = chunkMapOf s knowledgeBase;
               (index, resized) =
                 (case map_of (indices s) knowledgeBase of
                    None \<Rightarrow>
                      (let initialCapacity = max (length docs + 256) 1024 in
                       (setEf (initIndex (getDimensions s) initialCapacity) (efSearch (config s)), []))
                  | Some existing \<Rightarrow>
                      (let currentCount = getCurrentCount existing;
                           maxElements = getMaxElements existing;
                           required = currentCount + length embeddings
                       in if required > maxElements then
                            (let newCapacity =
                                   max (required + 256) (nat \<lfloor>real maxElements * 1.5\<rfloor>)
                             in (resizeIndex existing newCapacity, [newCapacity]))
                          else (existing, [])));
               (failure, index', chunkMap') =
                 addPoints now embeddings docs (getCurrentCount index) index chunkMap
           in case failure of
                Some e \<Rightarrow>
                  (Inl e,
                   s\<lparr>indices := AList.update knowledgeBase index' (indices s),
                     chunkMaps :=
                       (case map_of (chunkMaps s) knowledgeBase of
                          None \<Rightarrow> chunkMaps s
                        | Some _ \<Rightarrow> AList.update knowledgeBase chunkMap' (chunkMaps s))\<rparr>,
                   resized)
              | None \<Rightarrow>
                  (let s1 = s\<lparr>indices := AList.update knowledgeBase index' (indices s),
                              chunkMaps := AList.update knowledgeBase chunkMap' (chunkMaps s)\<rparr>;
                       s2 = saveIndex s1 knowledgeBase index';
                       s3 = saveChunkMap s2 knowledgeBase chunkMap'
                   in (Inr (), s3, resized))))"

subsection \<open>RAGService: public methods\<close>

text \<open>\<^verbatim>\<open>options.k || 10\<close> and \<^verbatim>\<open>options.similarityThreshold || 0.0\<close>.\<close>

definition kInput :: "searchOptions \<Rightarrow> int" where
  "kInput options = (case opt_k options of None \<Rightarrow> 10 | Some k \<Rightarrow> if k \<noteq> 0 then k else 10)"

definition similarityThreshold :: "searchOptions \<Rightarrow> real" where
  "similarityThreshold options =
     (case opt_similarityThreshold options of None \<Rightarrow> 0 | Some t \<Rightarrow> if t \<noteq> 0 then t else 0)"

text \<open>The count passed to the index query.\<close>

definition effectiveK :: "int \<Rightarrow> nat \<Rightarrow> nat \<Rightarrow> int" where
  "effectiveK kIn currentCount maxElems =
     (let value = min kIn (if currentCount \<noteq> 0 then int currentCount else 1);
          value' = (if maxElems \<noteq> 0 \<and> value > int maxElems then int maxElems else value)
      in max 1 value')"

text \<open>
  One neighbour turned into a result. The score is \<^verbatim>\<open>1 / (1 + distance)\<close>; at distance
  \<open>-1\<close> JavaScript gives \<^verbatim>\<open>Infinity\<close> where HOL's division gives 0, so the theorems below
  speak of distances above \<open>-1\<close>.
\<close>

definition toResult :: "chunkMap \<Rightarrow> nat \<times> real \<Rightarrow> ragResult" where
  "toResult chunkMap neighbor =
     (let neighborIdx = fst neighbor;
          distance = snd neighbor;
          similarity = 1 / (1 + distance);
          chunk = chunkMap neighborIdx
      in \<lparr>res_id =
            (case chunk of
               None \<Rightarrow> ''chunk-'' @ natToString neighborIdx
             | Some c \<Rightarrow>
                 if chunk_id c \<noteq> [] then chunk_id c else ''chunk-'' @ natToString neighborIdx),
          res_content = (case chunk of None \<Rightarrow> [] | Some c \<Rightarrow> chunk_text c),
          res_score = similarity,
          res_metadata =
            fold (\<lambda>(key, v). AList.update key v)
              (case chunk of
                 None \<Rightarrow> []
               | Some c \<Rightarrow> (case chunk_metadata c of None \<Rightarrow> [] | Some m \<Rightarrow> m))
              [(''source'', case chunk of None \<Rightarrow> JUndefined | Some c \<Rightarrow> chunk_source c),
               (''timestamp'', case chunk of None \<Rightarrow> JUndefined | Some c \<Rightarrow> chunk_timestamp c)]\<rparr>)"

text \<open>
  What one \<^verbatim>\<open>search\<close> does: what it returns or throws, the state it leaves, and the query
  it made to the index, if any, as the index and the count passed.
\<close>

record searchOutcome =
  returned :: "error + ragResult list"
  after :: ragService
  queried :: "(hnsw \<times> int) option"

definition search :: "externals \<Rightarrow> clock \<Rightarrow> ragService \<Rightarrow> searchOptions \<Rightarrow> searchOutcome" where
  "search ext clk s options =
     (case getEmbedding ext (opt_query options) of
        Inl e \<Rightarrow> \<lparr>returned = Inl e, after = s, queried = None\<rparr>
      | Inr None \<Rightarrow> \<lparr>returned = Inl TypeError, after = s, queried = None\<rparr>
      | Inr (Some queryVector) \<Rightarrow>
          (let (cached, c1) =
                 SearchCache_get (md5hex ext) (tGet clk) (searchCache s)
                   (opt_knowledgeBase options) queryVector (kInput options);
               s1 = s\<lparr>searchCache := c1\<rparr>
           in case cached of
                Some res \<Rightarrow> \<lparr>returned = Inr res, after = s1, queried = None\<rparr>
              | None \<Rightarrow>
                  (let (loaded, s2) = getOrLoadIndex s1 (opt_knowledgeBase options) in
                   case loaded of
                     None \<Rightarrow> \<lparr>returned = Inr [], after = s2, queried = None\<rparr>
                   | Some index \<Rightarrow>
                       (let k = effectiveK (kInput options) (getCurrentCount index)
                                  (getMaxElements index)
                        in case searchKnn ext index queryVector k of
                             Inl e \<Rightarrow>
                               \<lparr>returned = Inl e, after = s2, queried = Some (index, k)\<rparr>
                           | Inr neighbors \<Rightarrow>
                               (let chunkMap = chunkMapOf s2 (opt_knowledgeBase options);
                                    results =
                                      filter (\<lambda>r. res_score r \<ge> similarityThreshold options)
                                        (map (toResult chunkMap) neighbors);
                                    c2 = SearchCache_set (md5hex ext) (tSet clk) (searchCache s2)
                                           (opt_knowledgeBase options) queryVector (kInput options)
                                           results;
                                    duration = real_of_int (tEnd clk - tStart clk)
                                in \<lparr>returned = Inr results,
                                    after = recordMetric (s2\<lparr>searchCache := c2\<rparr>) ''search''
                                              duration,
                                    queried = Some (index, k)\<rparr>)))))"

text \<open>\<^verbatim>\<open>addDocuments\<close>: the documents grouped by knowledge base, in order of first appearance.\<close>

definition groupByKnowledgeBase :: "document list \<Rightarrow> (string \<times> document list) list" where
  "groupByKnowledgeBase docs =
     foldl (\<lambda>grouped d.
              AList.update (doc_knowledgeBase d)
                ((case map_of grouped (doc_knowledgeBase d) of None \<Rightarrow> [] | Some existing \<Rightarrow> existing)
                 @ [d])
                grouped)
       [] docs"

fun addGroups ::
  "externals \<Rightarrow> int \<Rightarrow> ragService \<Rightarrow> (string \<times> document list) list
     \<Rightarrow> (error + unit) \<times> ragService" where
  "addGroups ext now s [] = (Inr (), s)"
| "addGroups ext now s ((knowledgeBase, kbDocs) # rest) =
     (case addDocumentsToKB ext now s knowledgeBase kbDocs of
        (Inl e, s', _) \<Rightarrow> (Inl e, s')
      | (Inr _, s', _) \<Rightarrow> addGroups ext now s' rest)"

definition addDocuments ::
  "externals \<Rightarrow> int \<Rightarrow> ragService \<Rightarrow> document list \<Rightarrow> (error + unit) \<times> ragService" where
  "addDocuments ext now s docs =
     (if docs = [] then (Inr (), s) else addGroups ext now s (groupByKnowledgeBase docs))"

definition addDocument ::
  "externals \<Rightarrow> int \<Rightarrow> ragService \<Rightarrow> document \<Rightarrow> (error + unit) \<times> ragService" where
  "addDocument ext now s d = addDocuments ext now s [d]"

text \<open>\<^verbatim>\<open>removeDocument\<close> only writes a log line.\<close>

definition removeDocument :: "ragService \<Rightarrow> string \<Rightarrow> (error + unit) \<times> ragService" where
  "removeDocument s ident = (Inr (), s)"

definition updateDocument ::
  "externals \<Rightarrow> int \<Rightarrow> ragService \<Rightarrow> string \<Rightarrow> partialDocument
     \<Rightarrow> (error + unit) \<times> ragService" where
  "updateDocument ext now s ident d =
     (case part_knowledgeBase d of
        None \<Rightarrow> (Inr (), s)
      | Some knowledgeBase \<Rightarrow>
          if knowledgeBase = [] then (Inr (), s)
          else
            (case removeDocument s ident of
               (Inl e, s1) \<Rightarrow> (Inl e, s1)
             | (Inr _, s1) \<Rightarrow>
                 (case part_content d of
                    None \<Rightarrow> (Inr (), s1)
                  | Some content \<Rightarrow>
                      if content = [] then (Inr (), s1)
                      else addDocument ext now s1
                             \<lparr>doc_id = Some ident, doc_content = content,
                              doc_knowledgeBase = knowledgeBase,
                              doc_metadata = part_metadata d\<rparr>)))"

text \<open>
  \<^verbatim>\<open>removeKnowledgeBase\<close>: both maps drop the name, then the two files are unlinked inside
  one \<^verbatim>\<open>try\<close> whose \<^verbatim>\<open>catch\<close> is empty.
\<close>

definition removeKnowledgeBase :: "ragService \<Rightarrow> string \<Rightarrow> (error + unit) \<times> ragService" where
  "removeKnowledgeBase s name =
     (let s1 = s\<lparr>indices := AList.delete name (indices s),
                 chunkMaps := AList.delete name (chunkMaps s)\<rparr>
      in case unlink (files s1) (indexPath s1 name) of
           Inl _ \<Rightarrow> (Inr (), s1)
         | Inr fs1 \<Rightarrow>
             (case unlink fs1 (chunkPath s1 name) of
                Inl _ \<Rightarrow> (Inr (), s1\<lparr>files := fs1\<rparr>)
              | Inr fs2 \<Rightarrow> (Inr (), s1\<lparr>files := fs2\<rparr>)))"

record serviceMetrics =
  m_totalSearches :: nat
  m_avgSearchTime :: real
  m_cacheHitRate :: real
  m_cacheSize :: nat

record ragServiceStatus =
  status :: string
  knowledgeBases :: "(string \<times> nat) list"
  metrics :: serviceMetrics

text \<open>\<^verbatim>\<open>getStatus\<close>, without the \<^verbatim>\<open>lastUpdate\<close> date of each knowledge base.\<close>

definition getStatus :: "ragService \<Rightarrow> ragServiceStatus" where
  "getStatus s =
     (let cacheStats = getStats (searchCache s) in
      \<lparr>status = ''healthy'',
       knowledgeBases = map (\<lambda>(name, index). (name, getCurrentCount index)) (indices s),
       metrics =
         \<lparr>m_totalSearches = totalSearches (stats s),
          m_avgSearchTime = avgSearchTime (stats s),
          m_cacheHitRate = stat_hitRateNumber cacheStats,
          m_cacheSize = stat_size cacheStats\<rparr>\<rparr>)"

subsection \<open>Predicates and inputs of the theorems\<close>


text \<open>
  The point count of a knowledge base, as \<^verbatim>\<open>addDocumentsToKB\<close> reads it before its loop
  (no index counts as no point), and an endpoint that sends one embedding for each text
  it is given.
\<close>

definition currentCountOf :: "ragService \<Rightarrow> string \<Rightarrow> nat" where
  "currentCountOf s knowledgeBase =
     (case map_of (indices s) knowledgeBase of
        None \<Rightarrow> 0
      | Some index \<Rightarrow> getCurrentCount index)"


text \<open>
  A small world for the closed instances: the endpoint embeds a text as its length, the
  digest is constant, and the index answers a query with its first ordinals, at distances
  0, 1, 2 and so on.
\<close>

definition exampleWorld :: externals where
  "exampleWorld =
     \<lparr>fetchEmbeddings = (\<lambda>texts. Ok (map (\<lambda>t. [real (length t)]) texts)),
      md5hex = (\<lambda>v. ''h''),
      searchKnn = (\<lambda>index q k.
        Inr (take (nat k) (map (\<lambda>i. (i, real i)) [0..<length (points index)])))\<rparr>"

definition emptyService :: ragService where
  "emptyService =
     \<lparr>config = \<lparr>workDir = ''store'', dimensions = 1, cacheSize = 2, cacheTTL = 60000,
                 efSearch = 150\<rparr>,
      indices = [], chunkMaps = [],
      searchCache = \<lparr>cache = [], hits = 0, misses = 0, maxSize = 2, ttl = 60000\<rparr>,
      stats = \<lparr>totalSearches = 0, avgSearchTime = 0\<rparr>,
      files = Map.empty\<rparr>"

definition twoDocuments :: "document list" where
  "twoDocuments =
     [\<lparr>doc_id = Some ''a'', doc_content = ''x'', doc_knowledgeBase = ''kb'', doc_metadata = None\<rparr>,
      \<lparr>doc_id = None, doc_content = ''yy'', doc_knowledgeBase = ''kb'', doc_metadata = None\<rparr>]"

text \<open>
  Modelled from the spec: the contract of the index query, which the repository does not
  contain. Section 4.1: \<^verbatim>\<open>query(vector, k)\<close> returns up to \<open>k\<close> pairs of a neighbour ordinal
  and a distance, ordered by ascending distance. The metric is cosine distance, which is
  not negative in exact arithmetic; the library computes it in floating point, where an
  exact match can come out a little below 0, so the contract only asks that a distance is
  above \<open>-1\<close>, where the score \<open>1 / (1 + d)\<close> is defined and decreases in \<open>d\<close>.
\<close>

definition knnContract :: "externals \<Rightarrow> bool" where
  "knnContract ext =
     (\<forall>index q k ps. 1 \<le> k \<and> searchKnn ext index q k = Inr ps \<longrightarrow>
        int (length ps) \<le> k \<and> sorted (map snd ps) \<and> (\<forall>d\<in>set (map snd ps). - 1 < d))"

text \<open>
  The digest in a cache key is \<^verbatim>\<open>crypto.createHash('md5').update(...).digest('hex')\<close>, of
  a library outside the repository: 32 hexadecimal digits, and so no hyphen, which is what
  makes the count \<open>k\<close> at the end of a key readable from the key.
\<close>

definition hexDigest :: "(vector \<Rightarrow> string) \<Rightarrow> bool" where
  "hexDigest md5 =
     (\<forall>v. length (md5 v) = 32 \<and> set (md5 v) \<subseteq> set ''0123456789abcdef'')"

text \<open>
  What every search leaves in the cache: under the key of a knowledge base, a vector and a
  count \<open>k\<close>, a list of at most \<open>max 1 k\<close> results whose scores do not increase. It holds of
  the empty cache, and \<^verbatim>\<open>get\<close> and \<^verbatim>\<open>set\<close> keep it (\<open>cacheInvariant_get\<close>,
  \<open>cacheInvariant_set\<close> below).
\<close>

definition cacheInvariant :: "(vector \<Rightarrow> string) \<Rightarrow> searchCache \<Rightarrow> bool" where
  "cacheInvariant md5 c =
     (\<forall>kb q k entry. map_of (cache c) (getCacheKey md5 kb q k) = Some entry \<longrightarrow>
        int (length (result entry)) \<le> max 1 k
        \<and> sorted_wrt (\<ge>) (map res_score (result entry)))"

text \<open>
  The clamp of the specification's sentence ``effective \<open>k = clamp(requestedK, 1,
  min(currentCount, capacity))\<close>'', written from the spec's words to be compared with
  \<open>effectiveK\<close>.
\<close>

definition specClamp :: "int \<Rightarrow> int \<Rightarrow> int \<Rightarrow> int" where
  "specClamp x lo hi = min hi (max lo x)"

text \<open>
  More concrete inputs. \<open>populatedService\<close> is the empty service after two documents were
  added to the knowledge base \<open>kb\<close>; \<open>cachedService\<close> is that service after one search;
  \<open>orphanService\<close> has lost the index file of \<open>kb\<close> but not its chunk-map file;
  \<open>corruptService\<close> has an index file and a chunk-map file that is not JSON;
  \<open>emptyIndexService\<close> has an index in memory that holds no point; \<open>crowdedService\<close> has
  an index filled to its capacity.
\<close>

definition populatedService :: ragService where
  "populatedService = snd (addDocuments exampleWorld 0 emptyService twoDocuments)"

definition exampleClock :: clock where
  "exampleClock = \<lparr>tStart = 100, tGet = 101, tSet = 102, tEnd = 104\<rparr>"

definition exampleQuery :: "int option \<Rightarrow> real option \<Rightarrow> searchOptions" where
  "exampleQuery k t =
     \<lparr>opt_query = ''x'', opt_knowledgeBase = ''kb'', opt_k = k, opt_similarityThreshold = t\<rparr>"

definition cachedService :: ragService where
  "cachedService =
     after (search exampleWorld exampleClock populatedService (exampleQuery (Some 2) None))"

definition orphanService :: ragService where
  "orphanService = cachedService\<lparr>files := (files cachedService)(''store/kb.hnsw'' := None)\<rparr>"

definition corruptService :: ragService where
  "corruptService =
     emptyService\<lparr>files :=
       [''store/kb.hnsw'' \<mapsto> IndexBytes \<lparr>dim = 1, maxElements = 1024, ef = 150,
                                            points = [(0, [1])]\<rparr>,
        ''store/kb.chunks.json'' \<mapsto> Garbage]\<rparr>"

definition emptyIndexService :: ragService where
  "emptyIndexService =
     emptyService\<lparr>indices := [(''kb'', \<lparr>dim = 1, maxElements = 1024, ef = 150, points = []\<rparr>)]\<rparr>"

definition fullCache :: searchCache where
  "fullCache =
     \<lparr>cache = [(''a-h-1'', \<lparr>result = [], timestamp = 0\<rparr>),
               (''b-h-1'', \<lparr>result = [], timestamp = 50\<rparr>)],
      hits = 0, misses = 2, maxSize = 2, ttl = 60000\<rparr>"



definition examplePatch :: partialDocument where
  "examplePatch =
     \<lparr>part_content = Some ''zzz'', part_knowledgeBase = Some ''kb'', part_metadata = None\<rparr>"

text \<open>
  \<open>digestWorld\<close> is the small world with a digest of 32 hexadecimal digits;
  \<open>mixedDocuments\<close> is a batch for two knowledge bases, interleaved; \<open>prolificWorld\<close> is an
  endpoint that answers the single text \<open>x\<close> with two embeddings; \<open>restartedService\<close> is a
  new service over the working directory that \<open>populatedService\<close> left.
\<close>

definition digestWorld :: externals where
  "digestWorld = exampleWorld\<lparr>md5hex := (\<lambda>v. ''d41d8cd98f00b204e9800998ecf8427e'')\<rparr>"



definition restartedService :: ragService where
  "restartedService = emptyService\<lparr>files := files populatedService\<rparr>"

section \<open>Lemmas\<close>

subsection \<open>The insertion loop\<close>

lemma addPoints_success:
  "addPoints now es ds idx ix cm = (None, ix', cm') \<Longrightarrow>
     length es \<le> length ds
     \<and> points ix' = points ix @ zip [idx..<idx + length es] es
     \<and> maxElements ix' = maxElements ix \<and> dim ix' = dim ix \<and> ef ix' = ef ix
     \<and> dom cm' = dom cm \<union> {idx..<idx + length es}
     \<and> (\<forall>i<length es. cm' (idx + i) = Some (makeChunk now (ds ! i) (idx + i)))
     \<and> (\<forall>j. j \<notin> {idx..<idx + length es} \<longrightarrow> cm' j = cm j)"
proof (induction es arbitrary: ds idx ix cm)
  case Nil
  then show ?case by simp
next
  case (Cons e es)
  from Cons.prems obtain ix1 where a: "addPoint ix e idx = Inr ix1"
    by (auto split: sum.splits)
  from Cons.prems a obtain d ds' where d: "ds = d # ds'"
    by (cases ds) auto
  from Cons.prems a d have rec:
    "addPoints now es ds' (Suc idx) ix1 (cm(idx \<mapsto> makeChunk now d idx)) = (None, ix', cm')"
    by simp
  from a have ix1: "points ix1 = points ix @ [(idx, e)]" "maxElements ix1 = maxElements ix"
      "dim ix1 = dim ix" "ef ix1 = ef ix"
    by (auto simp: addPoint_def split: if_splits)
  note IH = Cons.IH[OF rec]
  have z: "[idx..<idx + length (e # es)] = idx # [Suc idx..<Suc idx + length es]"
    by (subst upt_rec) simp
  have p1: "length (e # es) \<le> length ds" using IH d by simp
  have p2: "points ix' = points ix @ zip [idx..<idx + length (e # es)] (e # es)"
    using IH ix1 unfolding z by simp
  have p3: "dom cm' = dom cm \<union> {idx..<idx + length (e # es)}"
    using IH by auto
  have p4: "\<forall>i<length (e # es). cm' (idx + i) = Some (makeChunk now (ds ! i) (idx + i))"
  proof (intro allI impI)
    fix i assume i: "i < length (e # es)"
    show "cm' (idx + i) = Some (makeChunk now (ds ! i) (idx + i))"
    proof (cases i)
      case 0
      have "cm' idx = (cm(idx \<mapsto> makeChunk now d idx)) idx" using IH by simp
      then show ?thesis using 0 d by simp
    next
      case (Suc j)
      then have "j < length es" using i by simp
      then have "cm' (Suc idx + j) = Some (makeChunk now (ds' ! j) (Suc idx + j))" using IH by blast
      then show ?thesis using Suc d by simp
    qed
  qed
  have p5: "\<forall>j. j \<notin> {idx..<idx + length (e # es)} \<longrightarrow> cm' j = cm j"
  proof (intro allI impI)
    fix j assume j: "j \<notin> {idx..<idx + length (e # es)}"
    then have "j \<notin> {Suc idx..<Suc idx + length es}" "j \<noteq> idx" by auto
    then show "cm' j = cm j" using IH by simp
  qed
  show ?case using p1 p2 p3 p4 p5 IH ix1 by simp
qed

lemma addPoints_total:
  "length es \<le> length ds \<Longrightarrow> idx + length es \<le> maxElements ix \<Longrightarrow>
     fst (addPoints now es ds idx ix cm) = None"
proof (induction es arbitrary: ds idx ix cm)
  case Nil
  then show ?case by simp
next
  case (Cons e es)
  then obtain d ds' where d: "ds = d # ds'" by (cases ds) auto
  have a: "addPoint ix e idx = Inr (ix\<lparr>points := points ix @ [(idx, e)]\<rparr>)"
    using Cons.prems by (simp add: addPoint_def)
  show ?case using Cons.prems d a Cons.IH[of ds' "Suc idx" "ix\<lparr>points := points ix @ [(idx, e)]\<rparr>"]
    by simp
qed

lemma floor_growth: "nat \<lfloor>real m * 1.5\<rfloor> = (3 * m) div 2"
proof -
  have "real m * 1.5 = real (3 * m) / real 2" by simp
  then have "\<lfloor>real m * 1.5\<rfloor> = \<lfloor>real (3 * m) / real 2\<rfloor>" by presburger
  also have "\<dots> = int ((3 * m) div 2)" by (rule floor_divide_of_nat_eq)
  finally show ?thesis by simp
qed

subsection \<open>addDocumentsToKB and addDocuments\<close>

lemma addDocumentsToKB_success:
  assumes "addDocumentsToKB ext now s kb docs = (Inr (), s', rs)"
  shows "\<exists>embs ix0 ix' cm'.
           getEmbeddings ext (map doc_content docs) = Inr embs
         \<and> (case map_of (indices s) kb of
               None \<Rightarrow> ix0 = setEf (initIndex (getDimensions s) (max (length docs + 256) 1024))
                               (efSearch (config s)) \<and> rs = []
             | Some existing \<Rightarrow>
                 if getCurrentCount existing + length embs > getMaxElements existing
                 then ix0 = resizeIndex existing
                              (max (getCurrentCount existing + length embs + 256)
                                 (nat \<lfloor>real (getMaxElements existing) * 1.5\<rfloor>))
                      \<and> rs = [max (getCurrentCount existing + length embs + 256)
                                 (nat \<lfloor>real (getMaxElements existing) * 1.5\<rfloor>)]
                 else ix0 = existing \<and> rs = [])
         \<and> addPoints now embs docs (getCurrentCount ix0) ix0 (chunkMapOf s kb) = (None, ix', cm')
         \<and> s' = s\<lparr>indices := AList.update kb ix' (indices s),
                   chunkMaps := AList.update kb cm' (chunkMaps s),
                   files := (files s)(indexPath s kb \<mapsto> IndexBytes ix',
                                      chunkPath s kb \<mapsto> ChunkJson cm')\<rparr>"
  using assms
  by (auto simp: addDocumentsToKB_def Let_def saveIndex_def saveChunkMap_def indexPath_def
      chunkPath_def split: sum.splits option.splits prod.splits if_splits)

lemma addDocumentsToKB_succeeds:
  assumes "getEmbeddings ext (map doc_content docs) = Inr embs" and "length embs \<le> length docs"
  shows "fst (addDocumentsToKB ext now s kb docs) = Inr ()"
proof -
  define cm0 where "cm0 = chunkMapOf s kb"
  define prep where "prep =
     (case map_of (indices s) kb of
        None \<Rightarrow>
          (let initialCapacity = max (length docs + 256) 1024 in
           (setEf (initIndex (getDimensions s) initialCapacity) (efSearch (config s)), []))
      | Some existing \<Rightarrow>
          (let currentCount = getCurrentCount existing;
               maxElements = getMaxElements existing;
               required = currentCount + length embs
           in if required > maxElements then
                (let newCapacity = max (required + 256) (nat \<lfloor>real maxElements * 1.5\<rfloor>)
                 in (resizeIndex existing newCapacity, [newCapacity]))
              else (existing, [])))"
  have cap: "getCurrentCount (fst prep) + length embs \<le> maxElements (fst prep)"
    using assms(2)
    by (auto simp: prep_def Let_def setEf_def initIndex_def getCurrentCount_def
        getMaxElements_def resizeIndex_def split: option.splits)
  have "fst (addPoints now embs docs (getCurrentCount (fst prep)) (fst prep) cm0) = None"
    using addPoints_total[OF assms(2) cap] .
  then show ?thesis
    using assms(1)
    by (auto simp: addDocumentsToKB_def Let_def cm0_def[symmetric] prep_def[symmetric]
        split: prod.splits option.splits)
qed






lemma group_step:
  "\<forall>d\<in>set docs. doc_knowledgeBase d = kb \<Longrightarrow>
   foldl (\<lambda>grouped d.
              AList.update (doc_knowledgeBase d)
                ((case map_of grouped (doc_knowledgeBase d) of None \<Rightarrow> [] | Some existing \<Rightarrow> existing)
                 @ [d])
                grouped) [(kb, acc)] docs = [(kb, acc @ docs)]"
  by (induction docs arbitrary: acc) auto

lemma groupByKnowledgeBase_single:
  assumes "docs \<noteq> []" and "\<forall>d\<in>set docs. doc_knowledgeBase d = kb"
  shows "groupByKnowledgeBase docs = [(kb, docs)]"
proof -
  obtain d ds where docs: "docs = d # ds" using assms(1) by (cases docs) auto
  have "\<forall>d\<in>set ds. doc_knowledgeBase d = kb" "doc_knowledgeBase d = kb"
    using assms(2) docs by auto
  then show ?thesis
    using group_step[of ds kb "[d]"] by (simp add: groupByKnowledgeBase_def docs)
qed

lemma addDocuments_single:
  assumes "docs \<noteq> []" and "\<forall>d\<in>set docs. doc_knowledgeBase d = kb"
    and "addDocumentsToKB ext now s kb docs = (r, s', rs)"
  shows "addDocuments ext now s docs = (r, s')"
  using assms groupByKnowledgeBase_single[OF assms(1,2)]
  by (cases r) (auto simp: addDocuments_def)

lemma addDocumentsToKB_result:
  assumes e: "getEmbeddings ext (map doc_content docs) = Inr embs"
    and l: "length embs \<le> length docs"
  shows "\<exists>s' rs. addDocumentsToKB ext now s kb docs = (Inr (), s', rs)"
proof -
  obtain r s' rs where a: "addDocumentsToKB ext now s kb docs = (r, s', rs)"
    by (cases "addDocumentsToKB ext now s kb docs")
  with addDocumentsToKB_succeeds[OF e l, of now s kb] have "r = Inr ()" by simp
  with a show ?thesis by blast
qed

lemma ex_embeddings:
  "getEmbeddings exampleWorld texts = Inr (map (\<lambda>t. [real (length t)]) texts)"
  by (simp add: getEmbeddings_def exampleWorld_def)

lemma ex_add_fst: "fst (addDocuments exampleWorld 0 emptyService twoDocuments) = Inr ()"
  by (simp add: addDocuments_def twoDocuments_def groupByKnowledgeBase_def
      addDocumentsToKB_def ex_embeddings emptyService_def chunkMapOf_def Let_def
      setEf_def initIndex_def getDimensions_def getCurrentCount_def addPoint_def
      saveIndex_def saveChunkMap_def)

lemma addDocumentsToKB_total:
  assumes e: "getEmbeddings ext (map doc_content docs) = Inr embs"
    and l: "length embs = length docs"
  obtains s' rs ix0 ix' cm' where
    "addDocumentsToKB ext now s kb docs = (Inr (), s', rs)"
    "case map_of (indices s) kb of
       None \<Rightarrow> ix0 = setEf (initIndex (getDimensions s) (max (length docs + 256) 1024))
                       (efSearch (config s)) \<and> rs = []
     | Some existing \<Rightarrow>
         if getCurrentCount existing + length docs > getMaxElements existing
         then ix0 = resizeIndex existing
                      (max (getCurrentCount existing + length docs + 256)
                         (nat \<lfloor>real (getMaxElements existing) * 1.5\<rfloor>))
              \<and> rs = [max (getCurrentCount existing + length docs + 256)
                         (nat \<lfloor>real (getMaxElements existing) * 1.5\<rfloor>)]
         else ix0 = existing \<and> rs = []"
    "addPoints now embs docs (getCurrentCount ix0) ix0 (chunkMapOf s kb) = (None, ix', cm')"
    "map_of (indices s') kb = Some ix'" "map_of (chunkMaps s') kb = Some cm'"
proof -
  from addDocumentsToKB_result[OF e, of now s kb] l
  obtain s' rs where a: "addDocumentsToKB ext now s kb docs = (Inr (), s', rs)" by auto
  from addDocumentsToKB_success[OF a] obtain embs' ix0 ix' cm' where
    e': "getEmbeddings ext (map doc_content docs) = Inr embs'"
    and p': "case map_of (indices s) kb of
       None \<Rightarrow> ix0 = setEf (initIndex (getDimensions s) (max (length docs + 256) 1024))
                       (efSearch (config s)) \<and> rs = []
     | Some existing \<Rightarrow>
         if getCurrentCount existing + length embs' > getMaxElements existing
         then ix0 = resizeIndex existing
                      (max (getCurrentCount existing + length embs' + 256)
                         (nat \<lfloor>real (getMaxElements existing) * 1.5\<rfloor>))
              \<and> rs = [max (getCurrentCount existing + length embs' + 256)
                         (nat \<lfloor>real (getMaxElements existing) * 1.5\<rfloor>)]
         else ix0 = existing \<and> rs = []"
    and loop': "addPoints now embs' docs (getCurrentCount ix0) ix0 (chunkMapOf s kb) = (None, ix', cm')"
    and s': "s' = s\<lparr>indices := AList.update kb ix' (indices s),
                   chunkMaps := AList.update kb cm' (chunkMaps s),
                   files := (files s)(indexPath s kb \<mapsto> IndexBytes ix',
                                      chunkPath s kb \<mapsto> ChunkJson cm')\<rparr>"
    by blast
  from e e' have eq: "embs' = embs" by simp
  note p = p'[unfolded eq l]
  note loop = loop'[unfolded eq]
  have "map_of (indices s') kb = Some ix'" "map_of (chunkMaps s') kb = Some cm'"
    by (simp_all add: s' update_conv')
  with a p loop that show thesis by blast
qed





lemma addDocumentsToKB_persists:
  assumes "addDocumentsToKB ext now s kb docs = (Inr (), s', rs)"
    and "map_of (chunkMaps s') kb = Some cm"
  shows "files s' (chunkPath s' kb) = Some (ChunkJson cm)"
proof -
  from addDocumentsToKB_success[OF assms(1)] obtain ix' cm' where
    s': "s' = s\<lparr>indices := AList.update kb ix' (indices s),
                   chunkMaps := AList.update kb cm' (chunkMaps s),
                   files := (files s)(indexPath s kb \<mapsto> IndexBytes ix',
                                      chunkPath s kb \<mapsto> ChunkJson cm')\<rparr>"
    by blast
  have "cm = cm'" using assms(2) by (simp add: s' update_conv')
  then show ?thesis by (simp add: s' chunkPath_def)
qed






subsection \<open>updateDocument and removeDocument\<close>

lemma removeDocument_noop: "removeDocument s ident = (Inr (), s)"
  by (simp add: removeDocument_def)

lemma updateDocument_adds:
  assumes kb: "part_knowledgeBase d = Some kb" "kb \<noteq> []"
    and ct: "part_content d = Some content" "content \<noteq> []"
  shows "updateDocument ext now s ident d =
           addDocuments ext now s
             [\<lparr>doc_id = Some ident, doc_content = content, doc_knowledgeBase = kb,
               doc_metadata = part_metadata d\<rparr>]"
  using assms by (simp add: updateDocument_def removeDocument_def addDocument_def)

lemma updateDocument_appends:
  assumes kb: "part_knowledgeBase d = Some kb" "kb \<noteq> []"
    and ct: "part_content d = Some content" "content \<noteq> []"
    and emb: "fetchEmbeddings ext [content] = Ok [v]"
  shows "\<exists>s' cm. updateDocument ext now s ident d = (Inr (), s')
          \<and> map_of (chunkMaps s') kb = Some cm
          \<and> files s' (chunkPath s' kb) = Some (ChunkJson cm)
          \<and> cm (currentCountOf s kb)
               = Some (makeChunk now
                   \<lparr>doc_id = Some ident, doc_content = content, doc_knowledgeBase = kb,
                    doc_metadata = part_metadata d\<rparr> (currentCountOf s kb))
          \<and> (\<forall>i. i \<noteq> currentCountOf s kb \<longrightarrow> cm i = chunkMapOf s kb i)"
proof -
  let ?doc = "\<lparr>doc_id = Some ident, doc_content = content, doc_knowledgeBase = kb,
                  doc_metadata = part_metadata d\<rparr>"
  have e: "getEmbeddings ext (map doc_content [?doc]) = Inr [v]"
    using emb by (simp add: getEmbeddings_def)
  have l: "length [v] = length [?doc]" by simp
  obtain s' rs ix0 ix' cm' where
    a: "addDocumentsToKB ext now s kb [?doc] = (Inr (), s', rs)"
    and p: "case map_of (indices s) kb of
       None \<Rightarrow> ix0 = setEf (initIndex (getDimensions s) (max (length [?doc] + 256) 1024))
                       (efSearch (config s)) \<and> rs = []
     | Some existing \<Rightarrow>
         if getCurrentCount existing + length [?doc] > getMaxElements existing
         then ix0 = resizeIndex existing
                      (max (getCurrentCount existing + length [?doc] + 256)
                         (nat \<lfloor>real (getMaxElements existing) * 1.5\<rfloor>))
              \<and> rs = [max (getCurrentCount existing + length [?doc] + 256)
                         (nat \<lfloor>real (getMaxElements existing) * 1.5\<rfloor>)]
         else ix0 = existing \<and> rs = []"
    and loop: "addPoints now [v] [?doc] (getCurrentCount ix0) ix0 (chunkMapOf s kb) = (None, ix', cm')"
    and reg: "map_of (indices s') kb = Some ix'" "map_of (chunkMaps s') kb = Some cm'"
    by (rule addDocumentsToKB_total[OF e l, of now s kb])
  have upd: "updateDocument ext now s ident d = (Inr (), s')"
    using updateDocument_adds[OF kb ct, of ext now s ident]
      addDocuments_single[of "[?doc]" kb ext now s "Inr ()" s' rs] a by simp
  have cnt: "getCurrentCount ix0 = currentCountOf s kb"
    using p by (auto simp: currentCountOf_def setEf_def initIndex_def getCurrentCount_def
        resizeIndex_def split: option.splits if_splits)
  note ap = addPoints_success[OF loop, unfolded cnt]
  have new: "cm' (currentCountOf s kb) = Some (makeChunk now ?doc (currentCountOf s kb))"
    using ap by (auto dest: spec[of _ 0])
  have old: "\<forall>i. i \<noteq> currentCountOf s kb \<longrightarrow> cm' i = chunkMapOf s kb i"
    using ap by simp
  show ?thesis
    by (rule exI[of _ s'], rule exI[of _ cm'])
       (intro conjI upd reg(2) addDocumentsToKB_persists[OF a reg(2)] new old)
qed

subsection \<open>The cache\<close>

lemma getCacheKey_nonempty: "getCacheKey md5 kb q k \<noteq> []"
  by (simp add: getCacheKey_def)

lemma delete_first_distinct:
  "distinct (map fst ((k1, e1) # rest)) \<Longrightarrow> AList.delete k1 ((k1, e1) # rest) = rest"
  by (force simp: AList.delete_eq intro!: filter_True)

lemma update_fresh_append:
  "key \<notin> fst ` set al \<Longrightarrow> AList.update key v al = al @ [(key, v)]"
  by (induction al) auto

lemma SearchCache_get_hit:
  "SearchCache_get md5 t c kb q k = (Some r, c') \<Longrightarrow>
     cache c' = cache c \<and> maxSize c' = maxSize c \<and> ttl c' = ttl c \<and> hits c' = hits c + 1
     \<and> misses c' = misses c"
  by (auto simp: SearchCache_get_def Let_def split: option.splits if_splits)

lemma keys_after_delete:
  assumes "distinct (map fst al)" and "[] \<notin> fst ` set al"
  shows "distinct (map fst (AList.delete k al))" and "[] \<notin> fst ` set (AList.delete k al)"
proof -
  show "distinct (map fst (AList.delete k al))" using assms(1) by (rule distinct_delete)
  have "fst ` set (AList.delete k al) \<subseteq> fst ` set al" by (rule dom_delete_subset)
  with assms(2) show "[] \<notin> fst ` set (AList.delete k al)" by blast
qed

lemma SearchCache_keys_get:
  assumes "distinct (map fst (cache c))" and "[] \<notin> fst ` set (cache c)"
  shows "distinct (map fst (cache (snd (SearchCache_get md5 t c kb q k))))
     \<and> [] \<notin> fst ` set (cache (snd (SearchCache_get md5 t c kb q k)))"
proof -
  have "cache (snd (SearchCache_get md5 t c kb q k)) = cache c
      \<or> cache (snd (SearchCache_get md5 t c kb q k))
           = AList.delete (getCacheKey md5 kb q k) (cache c)"
    by (simp add: SearchCache_get_def Let_def split: option.splits)
  then show ?thesis
  proof
    assume "cache (snd (SearchCache_get md5 t c kb q k)) = cache c"
    then show ?thesis using assms by simp
  next
    assume "cache (snd (SearchCache_get md5 t c kb q k))
           = AList.delete (getCacheKey md5 kb q k) (cache c)"
    then show ?thesis using keys_after_delete[OF assms] by simp
  qed
qed

lemma SearchCache_keys_set:
  assumes "distinct (map fst (cache c))" and "[] \<notin> fst ` set (cache c)"
  shows "distinct (map fst (cache (SearchCache_set md5 t c kb q k res)))
     \<and> [] \<notin> fst ` set (cache (SearchCache_set md5 t c kb q k res))"
proof -
  define ev where "ev =
     (if int (length (cache c)) \<ge> maxSize c then
        (case cache c of
           [] \<Rightarrow> cache c
         | (firstKey, _) # _ \<Rightarrow>
             if firstKey \<noteq> [] then AList.delete firstKey (cache c) else cache c)
      else cache c)"
  have "ev = cache c \<or> (\<exists>fk. ev = AList.delete fk (cache c))"
  proof (cases "int (length (cache c)) \<ge> maxSize c")
    case False
    then show ?thesis by (simp add: ev_def)
  next
    case full: True
    show ?thesis
    proof (cases "cache c")
      case Nil
      then show ?thesis by (simp add: ev_def)
    next
      case (Cons p ps)
      obtain fk e where p: "p = (fk, e)" by (cases p)
      have full': "maxSize c \<le> int (length ((fk, e) # ps))" using full Cons p by simp
      have "ev = (if fk \<noteq> [] then AList.delete fk (cache c) else cache c)"
        by (simp only: ev_def Cons p list.case prod.case full' if_True)
      then show ?thesis by (cases "fk \<noteq> []") (simp_all, blast)
    qed
  qed
  then have d: "distinct (map fst ev) \<and> [] \<notin> fst ` set ev"
  proof
    assume "ev = cache c" then show ?thesis using assms by simp
  next
    assume "\<exists>fk. ev = AList.delete fk (cache c)"
    then obtain fk where "ev = AList.delete fk (cache c)" ..
    then show ?thesis using keys_after_delete[OF assms] by simp
  qed
  have c: "cache (SearchCache_set md5 t c kb q k res) =
      AList.update (getCacheKey md5 kb q k) \<lparr>result = res, timestamp = t\<rparr> ev"
    by (simp add: SearchCache_set_def Let_def ev_def)
  have 1: "distinct (map fst (AList.update (getCacheKey md5 kb q k)
              \<lparr>result = res, timestamp = t\<rparr> ev))"
    using d by (simp add: distinct_update)
  have 2: "fst ` set (AList.update (getCacheKey md5 kb q k) \<lparr>result = res, timestamp = t\<rparr> ev)
      = {getCacheKey md5 kb q k} \<union> fst ` set ev" by (rule dom_update)
  have 3: "[] \<notin> {getCacheKey md5 kb q k} \<union> fst ` set ev"
    using d getCacheKey_nonempty[of md5 kb q k] by auto
  show ?thesis unfolding c using 1 2 3 by simp
qed

text \<open>The decimal rendering of a count determines the count.\<close>

lemma digit_nth: "n < 10 \<Longrightarrow> ''0123456789'' ! n \<in> set ''0123456789''"
  by (rule nth_mem) simp

lemma natToString_small: "n < 10 \<Longrightarrow> natToString n = [''0123456789'' ! n]"
  by (subst natToString.simps) simp

lemma natToString_large:
  "\<not> n < 10 \<Longrightarrow> natToString n = natToString (n div 10) @ [''0123456789'' ! (n mod 10)]"
  by (subst natToString.simps) simp

lemma natToString_digits:
  "natToString n \<noteq> [] \<and> set (natToString n) \<subseteq> set ''0123456789''"
proof (induction n rule: natToString.induct)
  case (1 n)
  show ?case
  proof (cases "n < 10")
    case True
    from digit_nth[OF True] show ?thesis
      unfolding natToString_small[OF True] by simp
  next
    case False
    have "n mod 10 < 10" by simp
    from digit_nth[OF this] 1[OF False] show ?thesis
      unfolding natToString_large[OF False] by simp
  qed
qed

lemma digit_inject:
  assumes "a < 10" and "b < 10" and "''0123456789'' ! a = ''0123456789'' ! b"
  shows "a = b"
proof -
  have d: "distinct ''0123456789''" by simp
  have l: "a < length ''0123456789''" "b < length ''0123456789''" using assms by simp_all
  from nth_eq_iff_index_eq[OF d l] assms(3) show ?thesis by blast
qed

lemma natToString_inject: "natToString n = natToString m \<Longrightarrow> n = m"
proof (induction n arbitrary: m rule: natToString.induct)
  case (1 n)
  show ?case
  proof (cases "n < 10")
    case n: True
    show ?thesis
    proof (cases "m < 10")
      case m: True
      from "1.prems" have "''0123456789'' ! n = ''0123456789'' ! m"
        unfolding natToString_small[OF n] natToString_small[OF m] by simp
      from digit_inject[OF n m this] show ?thesis .
    next
      case m: False
      have "natToString (m div 10) \<noteq> []" using natToString_digits by blast
      with "1.prems" show ?thesis
        unfolding natToString_small[OF n] natToString_large[OF m] by simp
    qed
  next
    case n: False
    show ?thesis
    proof (cases "m < 10")
      case m: True
      have "natToString (n div 10) \<noteq> []" using natToString_digits by blast
      with "1.prems" show ?thesis
        unfolding natToString_large[OF n] natToString_small[OF m] by simp
    next
      case m: False
      from "1.prems" have a: "natToString (n div 10) = natToString (m div 10)"
        and b: "''0123456789'' ! (n mod 10) = ''0123456789'' ! (m mod 10)"
        unfolding natToString_large[OF n] natToString_large[OF m] by simp_all
      from "1.IH"[OF n a] have d: "n div 10 = m div 10" .
      have "n mod 10 = m mod 10" by (rule digit_inject[OF _ _ b]) simp_all
      with d show ?thesis by (metis div_mult_mod_eq)
    qed
  qed
qed

text \<open>The count can be read back from a cache key: the digest holds no hyphen.\<close>

lemma key_suffix:
  assumes "hexDigest md5"
  shows "\<exists>body c. getCacheKey md5 kb q k = body @ [c] @ ''-'' @ numberToString k
             \<and> c \<noteq> CHR ''-''"
proof -
  from assms have l: "length (md5 q) = 32" and h: "set (md5 q) \<subseteq> set ''0123456789abcdef''"
    unfolding hexDigest_def by blast+
  from l have ne: "md5 q \<noteq> []" by auto
  then have sn: "md5 q = butlast (md5 q) @ [last (md5 q)]" by simp
  have "last (md5 q) \<in> set (md5 q)" using ne by simp
  with h have "last (md5 q) \<in> set ''0123456789abcdef''" by blast
  then have c: "last (md5 q) \<noteq> CHR ''-''" by auto
  have "getCacheKey md5 kb q k
      = (kb @ ''-'' @ butlast (md5 q)) @ [last (md5 q)] @ ''-'' @ numberToString k"
    unfolding getCacheKey_def by (subst sn) simp
  with c show ?thesis by blast
qed

lemma suffix_split:
  assumes "set ds \<subseteq> S" and "c \<notin> S"
  shows "takeWhile (\<lambda>x. x \<in> S) (rev (xs @ [c] @ ds)) = rev ds"
    and "dropWhile (\<lambda>x. x \<in> S) (rev (xs @ [c] @ ds)) = c # rev xs"
proof -
  have all: "\<And>x. x \<in> set (rev ds) \<Longrightarrow> x \<in> S" using assms(1) by auto
  have r: "rev (xs @ [c] @ ds) = rev ds @ (c # rev xs)" by simp
  show "takeWhile (\<lambda>x. x \<in> S) (rev (xs @ [c] @ ds)) = rev ds"
    unfolding r using takeWhile_append2[of "rev ds" "\<lambda>x. x \<in> S" "c # rev xs"] all assms(2)
    by simp
  show "dropWhile (\<lambda>x. x \<in> S) (rev (xs @ [c] @ ds)) = c # rev xs"
    unfolding r using dropWhile_append2[of "rev ds" "\<lambda>x. x \<in> S" "c # rev xs"] all assms(2)
    by simp
qed

lemma digits_suffix:
  assumes "set ds \<subseteq> set ''0123456789''"
  shows "takeWhile (\<lambda>x. x \<in> set ''0123456789'') (rev (xs @ ''-'' @ ds)) = rev ds"
    and "dropWhile (\<lambda>x. x \<in> set ''0123456789'') (rev (xs @ ''-'' @ ds)) = CHR ''-'' # rev xs"
proof -
  have n: "CHR ''-'' \<notin> set ''0123456789''" by simp
  show "takeWhile (\<lambda>x. x \<in> set ''0123456789'') (rev (xs @ ''-'' @ ds)) = rev ds"
    by (rule suffix_split(1)[OF assms n])
  show "dropWhile (\<lambda>x. x \<in> set ''0123456789'') (rev (xs @ ''-'' @ ds)) = CHR ''-'' # rev xs"
    by (rule suffix_split(2)[OF assms n])
qed

lemma key_parse:
  assumes hex: "hexDigest md5"
  shows "takeWhile (\<lambda>x. x \<in> set ''0123456789'') (rev (getCacheKey md5 kb q k))
           = rev (natToString (nat \<bar>k\<bar>))
       \<and> (hd (tl (dropWhile (\<lambda>x. x \<in> set ''0123456789'') (rev (getCacheKey md5 kb q k))))
             = CHR ''-'') = (k < 0)"
proof -
  from key_suffix[OF hex, of kb q k] obtain b c where
    1: "getCacheKey md5 kb q k = b @ [c] @ ''-'' @ numberToString k" and c: "c \<noteq> CHR ''-''"
    by blast
  show ?thesis
  proof (cases "k < 0")
    case True
    let ?D = "natToString (nat (- k))"
    have ds: "set ?D \<subseteq> set ''0123456789''" using natToString_digits by blast
    have key: "getCacheKey md5 kb q k = (b @ [c] @ ''-'') @ ''-'' @ ?D"
      using 1 True by (simp add: numberToString_def)
    have a: "nat \<bar>k\<bar> = nat (- k)" using True by simp
    show ?thesis
      unfolding key digits_suffix[OF ds] a using True by simp
  next
    case False
    let ?D = "natToString (nat k)"
    have ds: "set ?D \<subseteq> set ''0123456789''" using natToString_digits by blast
    have key: "getCacheKey md5 kb q k = (b @ [c]) @ ''-'' @ ?D"
      using 1 False by (simp add: numberToString_def)
    have a: "nat \<bar>k\<bar> = nat k" using False by simp
    show ?thesis
      unfolding key digits_suffix[OF ds] a using False c by simp
  qed
qed

lemma getCacheKey_count:
  assumes hex: "hexDigest md5"
    and eq: "getCacheKey md5 kb q k = getCacheKey md5 kb' q' k'"
  shows "k = k'"
proof -
  from key_parse[OF hex, of kb q k] key_parse[OF hex, of kb' q' k']
  have "rev (natToString (nat \<bar>k\<bar>)) = rev (natToString (nat \<bar>k'\<bar>))" and s: "(k < 0) = (k' < 0)"
    unfolding eq by simp_all
  then have "natToString (nat \<bar>k\<bar>) = natToString (nat \<bar>k'\<bar>)" by simp
  from natToString_inject[OF this] have "\<bar>k\<bar> = \<bar>k'\<bar>" by simp
  with s show ?thesis by linarith
qed

text \<open>The cache invariant holds of the empty cache and is kept by \<^verbatim>\<open>get\<close> and \<^verbatim>\<open>set\<close>.\<close>

lemma cacheInvariant_empty: "cache c = [] \<Longrightarrow> cacheInvariant md5 c"
  by (simp add: cacheInvariant_def)

lemma cacheInvariant_cong: "cache c' = cache c \<Longrightarrow> cacheInvariant md5 c' = cacheInvariant md5 c"
  by (simp add: cacheInvariant_def)

lemma cacheInvariant_delete:
  assumes "cacheInvariant md5 c" and "cache c' = AList.delete key (cache c)"
  shows "cacheInvariant md5 c'"
  unfolding cacheInvariant_def
proof (intro allI impI)
  fix kb q k entry
  assume "map_of (cache c') (getCacheKey md5 kb q k) = Some entry"
  then have "map_of (cache c) (getCacheKey md5 kb q k) = Some entry"
    unfolding assms(2) by (simp add: delete_conv' split: if_splits)
  with assms(1) show "int (length (result entry)) \<le> max 1 k
        \<and> sorted_wrt (\<ge>) (map res_score (result entry))"
    unfolding cacheInvariant_def by blast
qed

lemma cacheInvariant_get:
  assumes "cacheInvariant md5 c"
  shows "cacheInvariant md5 (snd (SearchCache_get md5 t c kb q k))"
proof -
  have "cache (snd (SearchCache_get md5 t c kb q k)) = cache c
      \<or> cache (snd (SearchCache_get md5 t c kb q k))
           = AList.delete (getCacheKey md5 kb q k) (cache c)"
    by (simp add: SearchCache_get_def Let_def split: option.splits)
  then show ?thesis
  proof
    assume "cache (snd (SearchCache_get md5 t c kb q k)) = cache c"
    from cacheInvariant_cong[OF this] assms show ?thesis by simp
  next
    assume "cache (snd (SearchCache_get md5 t c kb q k))
           = AList.delete (getCacheKey md5 kb q k) (cache c)"
    from cacheInvariant_delete[OF assms this] show ?thesis .
  qed
qed

lemma cacheInvariant_hit:
  assumes "cacheInvariant md5 c" and "SearchCache_get md5 t c kb q k = (Some res, c')"
  shows "int (length res) \<le> max 1 k \<and> sorted_wrt (\<ge>) (map res_score res)"
proof -
  from assms(2) obtain entry where
    "map_of (cache c) (getCacheKey md5 kb q k) = Some entry" "result entry = res"
    by (auto simp: SearchCache_get_def Let_def split: option.splits if_splits)
  with assms(1) show ?thesis unfolding cacheInvariant_def by blast
qed

lemma cacheInvariant_set:
  assumes hex: "hexDigest md5" and inv: "cacheInvariant md5 c"
    and len: "int (length res) \<le> max 1 k" and ord: "sorted_wrt (\<ge>) (map res_score res)"
  shows "cacheInvariant md5 (SearchCache_set md5 t c kb q k res)"
proof -
  define ev where "ev =
     (if int (length (cache c)) \<ge> maxSize c then
        (case cache c of
           [] \<Rightarrow> cache c
         | (firstKey, _) # _ \<Rightarrow>
             if firstKey \<noteq> [] then AList.delete firstKey (cache c) else cache c)
      else cache c)"
  have "ev = cache c \<or> (\<exists>fk. ev = AList.delete fk (cache c))"
  proof (cases "int (length (cache c)) \<ge> maxSize c")
    case False
    then show ?thesis by (simp add: ev_def)
  next
    case full: True
    show ?thesis
    proof (cases "cache c")
      case Nil
      then show ?thesis by (simp add: ev_def)
    next
      case (Cons p ps)
      obtain fk e where p: "p = (fk, e)" by (cases p)
      have full': "maxSize c \<le> int (length ((fk, e) # ps))" using full Cons p by simp
      have "ev = (if fk \<noteq> [] then AList.delete fk (cache c) else cache c)"
        by (simp only: ev_def Cons p list.case prod.case full' if_True)
      then show ?thesis by (cases "fk \<noteq> []") (simp_all, blast)
    qed
  qed
  then have old: "map_of ev key = Some entry \<Longrightarrow> map_of (cache c) key = Some entry" for key entry
    by (auto simp: delete_conv' split: if_splits)
  have c: "cache (SearchCache_set md5 t c kb q k res) =
      AList.update (getCacheKey md5 kb q k) \<lparr>result = res, timestamp = t\<rparr> ev"
    by (simp add: SearchCache_set_def Let_def ev_def)
  show ?thesis
    unfolding cacheInvariant_def
  proof (intro allI impI)
    fix kb' q' k' entry
    assume m: "map_of (cache (SearchCache_set md5 t c kb q k res)) (getCacheKey md5 kb' q' k')
        = Some entry"
    show "int (length (result entry)) \<le> max 1 k'
        \<and> sorted_wrt (\<ge>) (map res_score (result entry))"
    proof (cases "getCacheKey md5 kb' q' k' = getCacheKey md5 kb q k")
      case True
      from getCacheKey_count[OF hex True] have k: "k' = k" .
      from m True have "entry = \<lparr>result = res, timestamp = t\<rparr>"
        unfolding c by (simp add: update_conv')
      with len ord k show ?thesis by simp
    next
      case False
      with m have "map_of ev (getCacheKey md5 kb' q' k') = Some entry"
        unfolding c by (simp add: update_conv')
      from old[OF this] inv show ?thesis unfolding cacheInvariant_def by blast
    qed
  qed
qed

subsection \<open>The paths of search\<close>

lemma search_hit:
  assumes "getEmbedding ext (opt_query options) = Inr (Some q)"
    and "SearchCache_get (md5hex ext) (tGet clk) (searchCache s) (opt_knowledgeBase options) q
           (kInput options) = (Some res, c')"
  shows "search ext clk s options =
           \<lparr>returned = Inr res, after = s\<lparr>searchCache := c'\<rparr>, queried = None\<rparr>"
  using assms by (simp add: search_def)

lemma search_absent:
  assumes "getEmbedding ext (opt_query options) = Inr (Some q)"
    and "SearchCache_get (md5hex ext) (tGet clk) (searchCache s) (opt_knowledgeBase options) q
           (kInput options) = (None, c')"
    and "getOrLoadIndex (s\<lparr>searchCache := c'\<rparr>) (opt_knowledgeBase options) = (None, s2)"
  shows "search ext clk s options = \<lparr>returned = Inr [], after = s2, queried = None\<rparr>"
  using assms by (simp add: search_def)

lemma search_found:
  assumes "getEmbedding ext (opt_query options) = Inr (Some q)"
    and "SearchCache_get (md5hex ext) (tGet clk) (searchCache s) (opt_knowledgeBase options) q
           (kInput options) = (None, c')"
    and "getOrLoadIndex (s\<lparr>searchCache := c'\<rparr>) (opt_knowledgeBase options) = (Some index, s2)"
    and "k = effectiveK (kInput options) (getCurrentCount index) (getMaxElements index)"
  shows "searchKnn ext index q k = Inl e \<Longrightarrow>
           search ext clk s options = \<lparr>returned = Inl e, after = s2, queried = Some (index, k)\<rparr>"
    and "searchKnn ext index q k = Inr ps \<Longrightarrow>
           search ext clk s options =
             \<lparr>returned =
                 Inr (filter (\<lambda>r. res_score r \<ge> similarityThreshold options)
                        (map (toResult (chunkMapOf s2 (opt_knowledgeBase options))) ps)),
              after =
                recordMetric
                  (s2\<lparr>searchCache :=
                        SearchCache_set (md5hex ext) (tSet clk) (searchCache s2)
                          (opt_knowledgeBase options) q (kInput options)
                          (filter (\<lambda>r. res_score r \<ge> similarityThreshold options)
                             (map (toResult (chunkMapOf s2 (opt_knowledgeBase options))) ps))\<rparr>)
                  ''search'' (real_of_int (tEnd clk - tStart clk)),
              queried = Some (index, k)\<rparr>"
  using assms by (simp_all add: search_def Let_def)

lemma search_no_vector:
  "getEmbedding ext (opt_query options) = Inl e \<Longrightarrow>
     search ext clk s options = \<lparr>returned = Inl e, after = s, queried = None\<rparr>"
  "getEmbedding ext (opt_query options) = Inr None \<Longrightarrow>
     search ext clk s options = \<lparr>returned = Inl TypeError, after = s, queried = None\<rparr>"
  by (simp_all add: search_def)

lemma search_queried:
  assumes "queried (search ext clk s options) = Some (index, k)"
  shows "\<exists>q c' s2. getEmbedding ext (opt_query options) = Inr (Some q)
           \<and> SearchCache_get (md5hex ext) (tGet clk) (searchCache s) (opt_knowledgeBase options) q
               (kInput options) = (None, c')
           \<and> getOrLoadIndex (s\<lparr>searchCache := c'\<rparr>) (opt_knowledgeBase options) = (Some index, s2)
           \<and> k = effectiveK (kInput options) (getCurrentCount index) (getMaxElements index)"
  using assms
  by (auto simp: search_def Let_def split: sum.splits option.splits prod.splits)

lemma search_miss_cases:
  assumes emb: "getEmbedding ext (opt_query options) = Inr (Some q)"
    and miss: "fst (SearchCache_get (md5hex ext) (tGet clk) (searchCache s)
                 (opt_knowledgeBase options) q (kInput options)) = None"
    and ret: "returned (search ext clk s options) = Inr rs"
  shows "rs = [] \<or>
         (\<exists>index ps cm.
            searchKnn ext index q
              (effectiveK (kInput options) (getCurrentCount index) (getMaxElements index)) = Inr ps
          \<and> rs = filter (\<lambda>r. res_score r \<ge> similarityThreshold options) (map (toResult cm) ps))"
proof -
  obtain c' where g: "SearchCache_get (md5hex ext) (tGet clk) (searchCache s)
                 (opt_knowledgeBase options) q (kInput options) = (None, c')"
    using miss by (metis prod.collapse)
  obtain loaded s2 where l: "getOrLoadIndex (s\<lparr>searchCache := c'\<rparr>) (opt_knowledgeBase options)
      = (loaded, s2)" by (cases "getOrLoadIndex (s\<lparr>searchCache := c'\<rparr>) (opt_knowledgeBase options)")
  show ?thesis
  proof (cases loaded)
    case None
    with search_absent[OF emb g] l ret show ?thesis by simp
  next
    case (Some index)
    let ?k = "effectiveK (kInput options) (getCurrentCount index) (getMaxElements index)"
    show ?thesis
    proof (cases "searchKnn ext index q ?k")
      case (Inl e)
      from l Some have l': "getOrLoadIndex (s\<lparr>searchCache := c'\<rparr>) (opt_knowledgeBase options)
        = (Some index, s2)" by simp
      from search_found(1)[OF emb g l' refl Inl] ret show ?thesis by simp
    next
      case (Inr ps)
      from l Some have l': "getOrLoadIndex (s\<lparr>searchCache := c'\<rparr>) (opt_knowledgeBase options)
        = (Some index, s2)" by simp
      from search_found(2)[OF emb g l' refl Inr] ret
      have "rs = filter (\<lambda>r. res_score r \<ge> similarityThreshold options)
                   (map (toResult (chunkMapOf s2 (opt_knowledgeBase options))) ps)" by simp
      with Inr show ?thesis by blast
    qed
  qed
qed

lemma getOrLoadIndex_registered:
  "getOrLoadIndex s kb = (Some index, s2) \<Longrightarrow>
     map_of (indices s2) kb = Some index \<and> stats s2 = stats s \<and> searchCache s2 = searchCache s
     \<and> files s2 = files s \<and> config s2 = config s"
  by (auto simp: getOrLoadIndex_def Let_def update_conv' split: option.splits sum.splits)

lemma getOrLoadIndex_absent:
  "getOrLoadIndex s kb = (None, s2) \<Longrightarrow> s2 = s"
  by (auto simp: getOrLoadIndex_def Let_def split: option.splits sum.splits)

lemma getOrLoadIndex_failure:
  "map_of (indices s) kb = None \<Longrightarrow>
   isl (readIndex (files s) (indexPath s kb)) \<or> isl (readChunkMap (files s) (chunkPath s kb)) \<Longrightarrow>
   getOrLoadIndex s kb = (None, s)"
  by (auto simp: getOrLoadIndex_def Let_def split: sum.splits)

lemma recordMetric_frame:
  "indices (recordMetric s t d) = indices s" "chunkMaps (recordMetric s t d) = chunkMaps s"
  "files (recordMetric s t d) = files s" "searchCache (recordMetric s t d) = searchCache s"
  "config (recordMetric s t d) = config s"
  by (simp_all add: recordMetric_def Let_def)

lemma kInput_given: "opt_k options = Some k \<Longrightarrow> 1 \<le> k \<Longrightarrow> kInput options = k"
  by (simp add: kInput_def)

lemma threshold_given:
  "opt_similarityThreshold options = Some t \<Longrightarrow> similarityThreshold options = t"
  by (simp add: similarityThreshold_def)

lemma effectiveK_bounds:
  "1 \<le> effectiveK kIn c m" "effectiveK kIn c m \<le> max 1 kIn"
  by (auto simp: effectiveK_def Let_def)

lemma effectiveK_empty: "effectiveK kIn 0 m = 1"
  by (auto simp: effectiveK_def Let_def)

lemma effectiveK_clamp:
  "1 \<le> c \<Longrightarrow> 1 \<le> m \<Longrightarrow> effectiveK kIn c m = specClamp kIn 1 (min (int c) (int m))"
  by (auto simp: effectiveK_def Let_def specClamp_def)

lemma score_toResult: "res_score (toResult cm (n, d)) = 1 / (1 + d)"
  by (simp add: toResult_def Let_def)

lemma scores_descending:
  "sorted (map snd ps) \<Longrightarrow> \<forall>d\<in>set (map snd ps). - 1 < d \<Longrightarrow>
     sorted_wrt (\<lambda>a b. res_score a \<ge> res_score b) (map (toResult cm) ps)"
proof (induction ps)
  case Nil
  then show ?case by simp
next
  case (Cons p ps)
  obtain n d where p: "p = (n, d)" by (cases p)
  have "\<forall>r\<in>set (map (toResult cm) ps). res_score r \<le> res_score (toResult cm p)"
  proof
    fix r assume "r \<in> set (map (toResult cm) ps)"
    then obtain n' d' where m: "(n', d') \<in> set ps" and r: "r = toResult cm (n', d')" by auto
    from Cons.prems(1) m p have "d \<le> d'" by force
    moreover from Cons.prems(2) p have "0 < 1 + d" by simp
    ultimately have "1 / (1 + d') \<le> 1 / (1 + d)" by (intro frac_le) simp_all
    then show "res_score r \<le> res_score (toResult cm p)" by (simp add: r p score_toResult)
  qed
  moreover have "sorted_wrt (\<lambda>a b. res_score a \<ge> res_score b) (map (toResult cm) ps)"
    using Cons by simp
  ultimately show ?case by simp
qed

lemma search_cases:
  obtains
    (failed) e where "search ext clk s options = \<lparr>returned = Inl e, after = s, queried = None\<rparr>"
  | (hit) q res c' where "getEmbedding ext (opt_query options) = Inr (Some q)"
      "SearchCache_get (md5hex ext) (tGet clk) (searchCache s) (opt_knowledgeBase options) q
           (kInput options) = (Some res, c')"
      "search ext clk s options =
           \<lparr>returned = Inr res, after = s\<lparr>searchCache := c'\<rparr>, queried = None\<rparr>"
  | (absent) q c' where "getEmbedding ext (opt_query options) = Inr (Some q)"
      "SearchCache_get (md5hex ext) (tGet clk) (searchCache s) (opt_knowledgeBase options) q
           (kInput options) = (None, c')"
      "search ext clk s options =
           \<lparr>returned = Inr [], after = s\<lparr>searchCache := c'\<rparr>, queried = None\<rparr>"
  | (threw) q c' index s2 e where "getEmbedding ext (opt_query options) = Inr (Some q)"
      "SearchCache_get (md5hex ext) (tGet clk) (searchCache s) (opt_knowledgeBase options) q
           (kInput options) = (None, c')"
      "getOrLoadIndex (s\<lparr>searchCache := c'\<rparr>) (opt_knowledgeBase options) = (Some index, s2)"
      "search ext clk s options =
           \<lparr>returned = Inl e, after = s2,
            queried = Some (index, effectiveK (kInput options) (getCurrentCount index)
                                     (getMaxElements index))\<rparr>"
  | (found) q c' index s2 ps where "getEmbedding ext (opt_query options) = Inr (Some q)"
      "SearchCache_get (md5hex ext) (tGet clk) (searchCache s) (opt_knowledgeBase options) q
           (kInput options) = (None, c')"
      "getOrLoadIndex (s\<lparr>searchCache := c'\<rparr>) (opt_knowledgeBase options) = (Some index, s2)"
      "searchKnn ext index q
         (effectiveK (kInput options) (getCurrentCount index) (getMaxElements index)) = Inr ps"
      "search ext clk s options =
             \<lparr>returned =
                 Inr (filter (\<lambda>r. res_score r \<ge> similarityThreshold options)
                        (map (toResult (chunkMapOf s2 (opt_knowledgeBase options))) ps)),
              after =
                recordMetric
                  (s2\<lparr>searchCache :=
                        SearchCache_set (md5hex ext) (tSet clk) (searchCache s2)
                          (opt_knowledgeBase options) q (kInput options)
                          (filter (\<lambda>r. res_score r \<ge> similarityThreshold options)
                             (map (toResult (chunkMapOf s2 (opt_knowledgeBase options))) ps))\<rparr>)
                  ''search'' (real_of_int (tEnd clk - tStart clk)),
              queried = Some (index, effectiveK (kInput options) (getCurrentCount index)
                                       (getMaxElements index))\<rparr>"
proof (cases "getEmbedding ext (opt_query options)")
  case (Inl e)
  from search_no_vector(1)[OF Inl] show thesis by (rule failed)
next
  case (Inr v)
  show thesis
  proof (cases v)
    case None
    with Inr have "getEmbedding ext (opt_query options) = Inr None" by simp
    from search_no_vector(2)[OF this] show thesis by (rule failed)
  next
    case (Some q)
    with Inr have emb: "getEmbedding ext (opt_query options) = Inr (Some q)" by simp
    obtain cached c' where g: "SearchCache_get (md5hex ext) (tGet clk) (searchCache s)
        (opt_knowledgeBase options) q (kInput options) = (cached, c')"
      by (cases "SearchCache_get (md5hex ext) (tGet clk) (searchCache s)
        (opt_knowledgeBase options) q (kInput options)")
    show thesis
    proof (cases cached)
      case (Some res)
      with g have g': "SearchCache_get (md5hex ext) (tGet clk) (searchCache s)
        (opt_knowledgeBase options) q (kInput options) = (Some res, c')" by simp
      from emb g' search_hit[OF emb g'] show thesis by (rule hit)
    next
      case None
      with g have g': "SearchCache_get (md5hex ext) (tGet clk) (searchCache s)
        (opt_knowledgeBase options) q (kInput options) = (None, c')" by simp
      obtain loaded s2 where l: "getOrLoadIndex (s\<lparr>searchCache := c'\<rparr>) (opt_knowledgeBase options)
          = (loaded, s2)"
        by (cases "getOrLoadIndex (s\<lparr>searchCache := c'\<rparr>) (opt_knowledgeBase options)")
      show thesis
      proof (cases loaded)
        case None
        with l have l': "getOrLoadIndex (s\<lparr>searchCache := c'\<rparr>) (opt_knowledgeBase options)
          = (None, s2)" by simp
        from getOrLoadIndex_absent[OF l'] have "s2 = s\<lparr>searchCache := c'\<rparr>" .
        with search_absent[OF emb g' l']
        have "search ext clk s options =
           \<lparr>returned = Inr [], after = s\<lparr>searchCache := c'\<rparr>, queried = None\<rparr>" by simp
        with emb g' show thesis by (rule absent)
      next
        case (Some index)
        with l have l': "getOrLoadIndex (s\<lparr>searchCache := c'\<rparr>) (opt_knowledgeBase options)
          = (Some index, s2)" by simp
        let ?k = "effectiveK (kInput options) (getCurrentCount index) (getMaxElements index)"
        show thesis
        proof (cases "searchKnn ext index q ?k")
          case (Inl e)
          from emb g' l' search_found(1)[OF emb g' l' refl Inl] show thesis by (rule threw)
        next
          case (Inr ps)
          from emb g' l' Inr search_found(2)[OF emb g' l' refl Inr] show thesis by (rule found)
        qed
      qed
    qed
  qed
qed

lemma results_bounded:
  assumes contract: "knnContract ext"
    and knn: "searchKnn ext index q (effectiveK kIn cnt mx) = Inr ps"
  shows "int (length (filter P (map (toResult cm) ps))) \<le> max 1 kIn
       \<and> sorted_wrt (\<ge>) (map res_score (filter P (map (toResult cm) ps)))"
proof -
  have k1: "1 \<le> effectiveK kIn cnt mx" by (rule effectiveK_bounds)
  from contract knn k1 have c: "int (length ps) \<le> effectiveK kIn cnt mx" "sorted (map snd ps)"
      "\<forall>d\<in>set (map snd ps). - 1 < d"
    unfolding knnContract_def by blast+
  have "length (filter P (map (toResult cm) ps)) \<le> length ps"
    using length_filter_le[of P "map (toResult cm) ps"] by simp
  with c(1) effectiveK_bounds(2)[of kIn cnt mx]
  have a: "int (length (filter P (map (toResult cm) ps))) \<le> max 1 kIn" by linarith
  have "sorted_wrt (\<lambda>a b. res_score a \<ge> res_score b) (filter P (map (toResult cm) ps))"
    by (intro sorted_wrt_filter scores_descending c)
  then have b: "sorted_wrt (\<ge>) (map res_score (filter P (map (toResult cm) ps)))"
    by (simp add: sorted_wrt_map)
  from a b show ?thesis by blast
qed

lemma search_keeps_invariant:
  assumes contract: "knnContract ext" and hex: "hexDigest (md5hex ext)"
    and inv: "cacheInvariant (md5hex ext) (searchCache s)"
  shows "cacheInvariant (md5hex ext) (searchCache (after (search ext clk s options)))"
proof (cases rule: search_cases[of ext clk s options])
  case (failed e)
  with inv show ?thesis by simp
next
  case (hit q res c')
  from SearchCache_get_hit[OF hit(2)] have "cache c' = cache (searchCache s)" by simp
  from cacheInvariant_cong[OF this] inv show ?thesis by (simp add: hit(3))
next
  case (absent q c')
  from cacheInvariant_get[OF inv, of "tGet clk" "opt_knowledgeBase options" q "kInput options"]
  show ?thesis by (simp add: absent)
next
  case (threw q c' index s2 e)
  from getOrLoadIndex_registered[OF threw(3)] have "searchCache s2 = c'" by simp
  with cacheInvariant_get[OF inv, of "tGet clk" "opt_knowledgeBase options" q "kInput options"]
  show ?thesis by (simp add: threw)
next
  case (found q c' index s2 ps)
  from getOrLoadIndex_registered[OF found(3)] have c2: "searchCache s2 = c'" by simp
  from cacheInvariant_get[OF inv, of "tGet clk" "opt_knowledgeBase options" q "kInput options"]
  have i2: "cacheInvariant (md5hex ext) (searchCache s2)" by (simp add: found(2) c2)
  note b = results_bounded[OF contract found(4),
      of "\<lambda>r. res_score r \<ge> similarityThreshold options"
         "chunkMapOf s2 (opt_knowledgeBase options)"]
  from cacheInvariant_set[OF hex i2 b[THEN conjunct1] b[THEN conjunct2]]
  show ?thesis by (simp add: found(5) recordMetric_frame)
qed

lemma search_bounded:
  assumes contract: "knnContract ext"
    and inv: "cacheInvariant (md5hex ext) (searchCache s)"
    and ret: "returned (search ext clk s options) = Inr rs"
  shows "int (length rs) \<le> max 1 (kInput options) \<and> sorted_wrt (\<ge>) (map res_score rs)"
proof (cases rule: search_cases[of ext clk s options])
  case (failed e)
  with ret show ?thesis by simp
next
  case (hit q res c')
  from ret have "rs = res" by (simp add: hit(3))
  with cacheInvariant_hit[OF inv hit(2)] show ?thesis by simp
next
  case (absent q c')
  with ret show ?thesis by simp
next
  case (threw q c' index s2 e)
  with ret show ?thesis by simp
next
  case (found q c' index s2 ps)
  from ret have "rs = filter (\<lambda>r. res_score r \<ge> similarityThreshold options)
                        (map (toResult (chunkMapOf s2 (opt_knowledgeBase options))) ps)"
    by (simp add: found(5))
  with results_bounded[OF contract found(4)] show ?thesis by simp
qed

lemma search_miss_threshold:
  assumes emb: "getEmbedding ext (opt_query options) = Inr (Some q)"
    and miss: "fst (SearchCache_get (md5hex ext) (tGet clk) (searchCache s)
                 (opt_knowledgeBase options) q (kInput options)) = None"
    and ret: "returned (search ext clk s options) = Inr rs"
  shows "\<forall>r\<in>set rs. similarityThreshold options \<le> res_score r"
  using search_miss_cases[OF emb miss ret] by auto

subsection \<open>removeKnowledgeBase\<close>

lemma removeKnowledgeBase_state:
  assumes "removeKnowledgeBase s name = (r, s')"
  shows "r = Inr ()" "indices s' = AList.delete name (indices s)"
    "chunkMaps s' = AList.delete name (chunkMaps s)" "config s' = config s"
    "searchCache s' = searchCache s" "stats s' = stats s"
    "files s' (indexPath s name) = None"
    "files s (indexPath s name) \<noteq> None \<Longrightarrow> files s' (chunkPath s name) = None"
    "files s (chunkPath s name) = None \<Longrightarrow> files s' (chunkPath s name) = None"
    "files s (indexPath s name) = None \<Longrightarrow> files s' = files s"
  using assms
  by (auto simp: removeKnowledgeBase_def Let_def unlink_def indexPath_def chunkPath_def
      split: option.splits sum.splits if_splits)

lemma removeKnowledgeBase_again:
  assumes "removeKnowledgeBase s name = (r, s')"
  shows "removeKnowledgeBase s' name = (Inr (), s')"
proof -
  note st = removeKnowledgeBase_state[OF assms]
  have p: "indexPath s' name = indexPath s name" by (simp add: indexPath_def st)
  have "unlink (files s') (indexPath s' name) = Inl FileNotFound"
    using st(7) by (simp add: unlink_def p)
  moreover have "s'\<lparr>indices := AList.delete name (indices s'),
                  chunkMaps := AList.delete name (chunkMaps s')\<rparr> = s'"
    by (simp add: st delete_idem)
  ultimately show ?thesis
    by (simp add: removeKnowledgeBase_def Let_def indexPath_def)
qed

subsection \<open>Evaluating the concrete inputs\<close>

lemmas eval_defs = addDocuments_def twoDocuments_def groupByKnowledgeBase_def
      addDocumentsToKB_def ex_embeddings emptyService_def chunkMapOf_def Let_def
      setEf_def initIndex_def getDimensions_def getCurrentCount_def addPoint_def
      saveIndex_def saveChunkMap_def makeChunk_def getProp_def natToString.simps
      indexPath_def chunkPath_def

lemma populated_value:
  "populatedService =
     \<lparr>config = \<lparr>workDir = ''store'', dimensions = 1, cacheSize = 2, cacheTTL = 60000,
                 efSearch = 150\<rparr>,
      indices = [(''kb'', \<lparr>dim = 1, maxElements = 1024, ef = 150,
                           points = [(0, [1]), (1, [2])]\<rparr>)],
      chunkMaps = [(''kb'',
         [0 \<mapsto> \<lparr>chunk_id = ''a'', chunk_text = ''x'', chunk_source = JUndefined,
                  chunk_timestamp = JDate 0, chunk_metadata = None\<rparr>,
          1 \<mapsto> \<lparr>chunk_id = ''doc-1'', chunk_text = ''yy'', chunk_source = JUndefined,
                  chunk_timestamp = JDate 0, chunk_metadata = None\<rparr>])],
      searchCache = \<lparr>cache = [], hits = 0, misses = 0, maxSize = 2, ttl = 60000\<rparr>,
      stats = \<lparr>totalSearches = 0, avgSearchTime = 0\<rparr>,
      files = [''store/kb.hnsw'' \<mapsto> IndexBytes \<lparr>dim = 1, maxElements = 1024, ef = 150,
                           points = [(0, [1]), (1, [2])]\<rparr>,
               ''store/kb.chunks.json'' \<mapsto> ChunkJson
         [0 \<mapsto> \<lparr>chunk_id = ''a'', chunk_text = ''x'', chunk_source = JUndefined,
                  chunk_timestamp = JDate 0, chunk_metadata = None\<rparr>,
          1 \<mapsto> \<lparr>chunk_id = ''doc-1'', chunk_text = ''yy'', chunk_source = JUndefined,
                  chunk_timestamp = JDate 0, chunk_metadata = None\<rparr>]]\<rparr>"
  by (simp add: populatedService_def eval_defs)

lemmas search_eval = search_def getEmbedding_def ex_embeddings exampleQuery_def exampleClock_def
   SearchCache_get_def SearchCache_set_def getCacheKey_def numberToString_def natToString.simps
   kInput_def similarityThreshold_def getOrLoadIndex_def effectiveK_def getCurrentCount_def
   getMaxElements_def toResult_def recordMetric_def chunkMapOf_def Let_def

lemma ex_md5: "md5hex exampleWorld v = ''h''" by (simp add: exampleWorld_def)

lemma ex_knn: "searchKnn exampleWorld index q k =
   Inr (take (nat k) (map (\<lambda>i. (i, real i)) [0..<length (points index)]))"
  by (simp add: exampleWorld_def)

lemma upt2: "[0..<2] = [0, Suc 0]" by (simp add: upt_rec)

lemma ex_contract: "knnContract exampleWorld"
  unfolding knnContract_def
proof (intro allI impI)
  fix index :: hnsw and q :: vector and k :: int and ps
  assume h: "1 \<le> k \<and> searchKnn exampleWorld index q k = Inr ps"
  then have ps: "ps = take (nat k) (map (\<lambda>i. (i, real i)) [0..<length (points index)])"
    by (simp add: ex_knn)
  have m: "map snd ps = take (nat k) (map real [0..<length (points index)])"
    by (simp add: ps take_map comp_def)
  have s: "sorted (map real [0..<length (points index)])"
    by (simp add: sorted_wrt_map sorted_wrt_iff_nth_less)
  have 1: "int (length ps) \<le> k" using h by (auto simp: ps min_def)
  have 2: "sorted (map snd ps)" unfolding m by (rule sorted_wrt_take[OF s])
  have 3: "\<forall>d\<in>set (map snd ps). - 1 < d"
  proof
    fix d assume "d \<in> set (map snd ps)"
    then have "d \<in> set (map real [0..<length (points index)])"
      unfolding m by (rule in_set_takeD)
    then obtain i :: nat where "d = real i" by auto
    then show "- 1 < d" by simp
  qed
  show "int (length ps) \<le> k \<and> sorted (map snd ps) \<and> (\<forall>d\<in>set (map snd ps). - 1 < d)"
    using 1 2 3 by blast
qed

lemma cached_value:
  "cachedService = populatedService
     \<lparr>searchCache :=
        \<lparr>cache = [(''kb-h-2'',
            \<lparr>result =
               [\<lparr>res_id = ''a'', res_content = ''x'', res_score = 1,
                 res_metadata = [(''source'', JUndefined), (''timestamp'', JDate 0)]\<rparr>,
                \<lparr>res_id = ''doc-1'', res_content = ''yy'', res_score = 1 / 2,
                 res_metadata = [(''source'', JUndefined), (''timestamp'', JDate 0)]\<rparr>],
             timestamp = 102\<rparr>)],
         hits = 0, misses = 1, maxSize = 2, ttl = 60000\<rparr>,
      stats := \<lparr>totalSearches = 1, avgSearchTime = 4\<rparr>\<rparr>"
  by (simp add: cachedService_def populated_value search_eval ex_md5 ex_knn upt2)

lemma corrupt_reads:
  "readIndex (files corruptService) (indexPath corruptService ''kb'')
     = Inr \<lparr>dim = 1, maxElements = 1024, ef = 150, points = [(0, [1])]\<rparr>"
  "readChunkMap (files corruptService) (chunkPath corruptService ''kb'') = Inl JsonSyntaxError"
  by (simp_all add: corruptService_def emptyService_def readIndex_def readChunkMap_def
      indexPath_def chunkPath_def)

lemmas remove_eval = removeKnowledgeBase_def unlink_def indexPath_def chunkPath_def Let_def

lemmas cache_eval = getCacheKey_def numberToString_def natToString.simps SearchCache_get_def
  SearchCache_set_def Let_def

lemma ex_query_default: "queried (search exampleWorld exampleClock populatedService (exampleQuery (Some 0) None))
     = Some (\<lparr>dim = 1, maxElements = 1024, ef = 150, points = [(0, [1]), (1, [2])]\<rparr>, 2)"
  by (simp add: populated_value search_eval ex_md5 ex_knn upt2)

lemma ex_query_empty: "queried (search exampleWorld exampleClock emptyIndexService (exampleQuery (Some 5) None))
     = Some (\<lparr>dim = 1, maxElements = 1024, ef = 150, points = []\<rparr>, 1)"
  by (simp add: emptyIndexService_def emptyService_def search_eval ex_md5 ex_knn)

lemma digest_md5: "md5hex digestWorld v = ''d41d8cd98f00b204e9800998ecf8427e''"
  by (simp add: digestWorld_def)

lemma digest_hex: "hexDigest (md5hex digestWorld)"
  by (simp add: hexDigest_def digest_md5)

lemma digest_knn: "searchKnn digestWorld = searchKnn exampleWorld"
  by (simp add: digestWorld_def)

lemma digest_embeddings: "getEmbeddings digestWorld = getEmbeddings exampleWorld"
  by (simp add: digestWorld_def getEmbeddings_def fun_eq_iff)

lemma digest_contract: "knnContract digestWorld"
  using ex_contract unfolding knnContract_def digest_knn .



lemma restarted_value:
  "restartedService =
     \<lparr>config = \<lparr>workDir = ''store'', dimensions = 1, cacheSize = 2, cacheTTL = 60000,
                 efSearch = 150\<rparr>,
      indices = [], chunkMaps = [],
      searchCache = \<lparr>cache = [], hits = 0, misses = 0, maxSize = 2, ttl = 60000\<rparr>,
      stats = \<lparr>totalSearches = 0, avgSearchTime = 0\<rparr>,
      files = [''store/kb.hnsw'' \<mapsto> IndexBytes \<lparr>dim = 1, maxElements = 1024, ef = 150,
                           points = [(0, [1]), (1, [2])]\<rparr>,
               ''store/kb.chunks.json'' \<mapsto> ChunkJson
         [0 \<mapsto> \<lparr>chunk_id = ''a'', chunk_text = ''x'', chunk_source = JUndefined,
                  chunk_timestamp = JDate 0, chunk_metadata = None\<rparr>,
          1 \<mapsto> \<lparr>chunk_id = ''doc-1'', chunk_text = ''yy'', chunk_source = JUndefined,
                  chunk_timestamp = JDate 0, chunk_metadata = None\<rparr>]]\<rparr>"
  by (simp add: restartedService_def populated_value emptyService_def)

section \<open>The claims\<close>

text \<open>
  Claim C1. For every search call with requested count \<open>k\<close> and threshold \<open>t\<close>, the returned
  list has at most \<open>k\<close> results, sorted by non-increasing score, every score \<open>\<ge> t\<close>.

  The code does otherwise in two places (the counterexample below): \<open>k = 0\<close> is read
  as ``not given'' and becomes 10, and a call answered from the cache returns the list
  stored under its key, whose key does not hold the threshold. What is proved holds of
  every call, answered from the cache or not: against an index that keeps its contract and
  a cache that satisfies \<open>cacheInvariant\<close>, the list has at most \<open>max 1 kInput\<close> results, where
  \<open>kInput\<close> is \<open>k\<close>, or 10 when \<open>k\<close> is 0 or absent (so at most \<open>k\<close> whenever \<open>k \<ge> 1\<close>), and
  the scores do not increase along the list; and when the call is not answered from the
  cache, each score is at least the threshold. The empty cache satisfies \<open>cacheInvariant\<close>,
  and so does the cache after the search (the first conjunct), the digest being one of 32
  hexadecimal digits, so that the key of an entry tells its \<open>k\<close>.
\<close>

theorem search_results_bounded:
  assumes "knnContract ext" and "cacheInvariant (md5hex ext) (searchCache s)"
  shows "(hexDigest (md5hex ext) \<longrightarrow>
            cacheInvariant (md5hex ext) (searchCache (after (search ext clk s options))))
       \<and> (\<forall>rs. returned (search ext clk s options) = Inr rs \<longrightarrow>
             int (length rs) \<le> max 1 (kInput options)
           \<and> (\<forall>k. opt_k options = Some k \<and> 1 \<le> k \<longrightarrow> int (length rs) \<le> k)
           \<and> sorted_wrt (\<ge>) (map res_score rs)
           \<and> (\<forall>q. getEmbedding ext (opt_query options) = Inr (Some q)
                  \<and> fst (SearchCache_get (md5hex ext) (tGet clk) (searchCache s)
                           (opt_knowledgeBase options) q (kInput options)) = None
                \<longrightarrow> (\<forall>r\<in>set rs. similarityThreshold options \<le> res_score r)
                    \<and> (\<forall>t. opt_similarityThreshold options = Some t
                           \<longrightarrow> (\<forall>r\<in>set rs. t \<le> res_score r))))"
proof (intro conjI allI impI ballI)
  assume "hexDigest (md5hex ext)"
  from search_keeps_invariant[OF assms(1) this assms(2)]
  show "cacheInvariant (md5hex ext) (searchCache (after (search ext clk s options)))" .
next
  fix rs assume ret: "returned (search ext clk s options) = Inr rs"
  from search_bounded[OF assms ret]
  show "int (length rs) \<le> max 1 (kInput options)" by blast
next
  fix rs k assume ret: "returned (search ext clk s options) = Inr rs"
    and k: "opt_k options = Some k \<and> 1 \<le> k"
  then have "kInput options = k" "1 \<le> k" using kInput_given by blast+
  with search_bounded[OF assms ret] show "int (length rs) \<le> k" by simp
next
  fix rs assume ret: "returned (search ext clk s options) = Inr rs"
  from search_bounded[OF assms ret]
  show "sorted_wrt (\<ge>) (map res_score rs)" by blast
next
  fix rs q r assume ret: "returned (search ext clk s options) = Inr rs"
    and h: "getEmbedding ext (opt_query options) = Inr (Some q)
                  \<and> fst (SearchCache_get (md5hex ext) (tGet clk) (searchCache s)
                           (opt_knowledgeBase options) q (kInput options)) = None"
    and r: "r \<in> set rs"
  from h search_miss_threshold[OF _ _ ret] r
  show "similarityThreshold options \<le> res_score r" by blast
next
  fix rs q t r assume ret: "returned (search ext clk s options) = Inr rs"
    and h: "getEmbedding ext (opt_query options) = Inr (Some q)
                  \<and> fst (SearchCache_get (md5hex ext) (tGet clk) (searchCache s)
                           (opt_knowledgeBase options) q (kInput options)) = None"
    and t: "opt_similarityThreshold options = Some t"
    and r: "r \<in> set rs"
  from h search_miss_threshold[OF _ _ ret] r
  have "similarityThreshold options \<le> res_score r" by blast
  with threshold_given[OF t] show "t \<le> res_score r" by simp
qed

theorem search_results_bounded_witness:
  "knnContract digestWorld \<and> hexDigest (md5hex digestWorld)
   \<and> cacheInvariant (md5hex digestWorld) (searchCache populatedService)
   \<and> cacheInvariant (md5hex digestWorld)
       (searchCache (after (search digestWorld exampleClock populatedService
                              (exampleQuery (Some 2) None))))
   \<and> returned (search digestWorld exampleClock populatedService (exampleQuery (Some 1) (Some 0.4)))
       = Inr [\<lparr>res_id = ''a'', res_content = ''x'', res_score = 1,
               res_metadata = [(''source'', JUndefined), (''timestamp'', JDate 0)]\<rparr>]
   \<and> getEmbedding digestWorld (opt_query (exampleQuery (Some 1) (Some 0.4))) = Inr (Some [1])
   \<and> fst (SearchCache_get (md5hex digestWorld) (tGet exampleClock) (searchCache populatedService)
            (opt_knowledgeBase (exampleQuery (Some 1) (Some 0.4))) [1]
            (kInput (exampleQuery (Some 1) (Some 0.4)))) = None
   \<and> opt_k (exampleQuery (Some 1) (Some 0.4)) = Some 1
   \<and> opt_similarityThreshold (exampleQuery (Some 1) (Some 0.4)) = Some 0.4
   \<and> int (length [\<lparr>res_id = ''a'', res_content = ''x'', res_score = 1,
               res_metadata = [(''source'', JUndefined), (''timestamp'', JDate 0)]\<rparr>]) \<le> 1
   \<and> fst (SearchCache_get (md5hex digestWorld) (tGet exampleClock)
            (searchCache (after (search digestWorld exampleClock populatedService
                                   (exampleQuery (Some 2) None))))
            (opt_knowledgeBase (exampleQuery (Some 2) (Some 0.9))) [1]
            (kInput (exampleQuery (Some 2) (Some 0.9)))) \<noteq> None
   \<and> map res_score (projr (returned
        (search digestWorld exampleClock
           (after (search digestWorld exampleClock populatedService (exampleQuery (Some 2) None)))
           (exampleQuery (Some 2) (Some 0.9))))) = [1, 1 / 2]
   \<and> int (length (projr (returned
        (search digestWorld exampleClock
           (after (search digestWorld exampleClock populatedService (exampleQuery (Some 2) None)))
           (exampleQuery (Some 2) (Some 0.9)))))) \<le> 2
   \<and> sorted_wrt (\<ge>) (map res_score (projr (returned
        (search digestWorld exampleClock
           (after (search digestWorld exampleClock populatedService (exampleQuery (Some 2) None)))
           (exampleQuery (Some 2) (Some 0.9))))))"
proof -
  let ?o = "exampleQuery (Some 1) (Some 0.4)"
  let ?h = "exampleQuery (Some 2) (Some 0.9)"
  let ?s1 = "after (search digestWorld exampleClock populatedService (exampleQuery (Some 2) None))"
  let ?r = "\<lparr>res_id = ''a'', res_content = ''x'', res_score = 1,
               res_metadata = [(''source'', JUndefined), (''timestamp'', JDate 0)]\<rparr>"
  let ?r2 = "\<lparr>res_id = ''doc-1'', res_content = ''yy'', res_score = 1 / 2,
               res_metadata = [(''source'', JUndefined), (''timestamp'', JDate 0)]\<rparr>"
  note ev = populated_value search_eval digest_embeddings digest_md5 digest_knn ex_knn upt2
  have i0: "cacheInvariant (md5hex digestWorld) (searchCache populatedService)"
    by (rule cacheInvariant_empty) (simp add: populated_value)
  have e: "getEmbedding digestWorld (opt_query ?o) = Inr (Some [1])"
    by (simp add: getEmbedding_def digest_embeddings ex_embeddings exampleQuery_def)
  have m: "fst (SearchCache_get (md5hex digestWorld) (tGet exampleClock) (searchCache populatedService)
            (opt_knowledgeBase ?o) [1] (kInput ?o)) = None"
    by (simp add: populated_value SearchCache_get_def)
  have r: "returned (search digestWorld exampleClock populatedService ?o) = Inr [?r]"
    by (simp add: ev)
  have k: "opt_k ?o = Some 1" "opt_similarityThreshold ?o = Some 0.4"
    by (simp_all add: exampleQuery_def)
  note miss = search_results_bounded[OF digest_contract i0, of exampleClock ?o,
      THEN conjunct2, rule_format, OF r]
  from miss[THEN conjunct2, THEN conjunct1, rule_format, OF conjI[OF k(1)]]
  have l1: "int (length [?r]) \<le> 1" by simp
  have i1: "cacheInvariant (md5hex digestWorld) (searchCache ?s1)"
    by (rule search_results_bounded[OF digest_contract i0, of exampleClock
      "exampleQuery (Some 2) None", THEN conjunct1, THEN mp, OF digest_hex])
  have g: "fst (SearchCache_get (md5hex digestWorld) (tGet exampleClock) (searchCache ?s1)
            (opt_knowledgeBase ?h) [1] (kInput ?h)) \<noteq> None"
    by (simp add: ev)
  have r2: "returned (search digestWorld exampleClock ?s1 ?h) = Inr [?r, ?r2]"
    by (simp add: ev)
  have k2: "kInput ?h = 2" by (simp add: kInput_def exampleQuery_def)
  note hit = search_results_bounded[OF digest_contract i1, of exampleClock ?h,
      THEN conjunct2, rule_format, OF r2]
  have b: "int (length [?r, ?r2]) \<le> max 1 (kInput ?h)"
      "sorted_wrt (\<ge>) (map res_score [?r, ?r2])"
    using hit[THEN conjunct1] hit[THEN conjunct2, THEN conjunct2, THEN conjunct1] by blast+
  have s1: "map res_score (projr (returned (search digestWorld exampleClock ?s1 ?h))) = [1, 1 / 2]"
    by (simp add: r2)
  have s2: "int (length (projr (returned (search digestWorld exampleClock ?s1 ?h)))) \<le> 2"
    using b(1) by (simp add: r2 k2)
  have s3: "sorted_wrt (\<ge>) (map res_score (projr (returned
      (search digestWorld exampleClock ?s1 ?h))))"
    using b(2) by (simp add: r2)
  show ?thesis
    by (intro conjI digest_contract digest_hex i0 i1 r e m k l1 g s1 s2 s3)
qed

theorem search_bound_counterexample:
  "map res_score (projr (returned
      (search exampleWorld exampleClock populatedService (exampleQuery (Some 0) None)))) = [1, 1/2]
   \<and> map res_score (projr (returned
      (search exampleWorld exampleClock
         (after (search exampleWorld exampleClock populatedService (exampleQuery (Some 2) None)))
         (exampleQuery (Some 2) (Some 0.9))))) = [1, 1/2]"
  by (simp add: populated_value search_eval ex_md5 ex_knn upt2)


text \<open>
  Claim C2. When the files of a knowledge base exist but the chunk-map JSON is malformed,
  loading raises a hard error instead of treating the knowledge base as absent.

  The code catches every failure of the load (the counterexample below). What
  is proved: for a knowledge base that is not in memory, whenever reading the index file
  or reading and parsing the chunk-map file fails, for whatever reason,
  \<^verbatim>\<open>getOrLoadIndex\<close> answers \<^verbatim>\<open>null\<close> and leaves the state as it was, and a search that
  reaches it returns the empty list, having queried no index.
\<close>

theorem getOrLoadIndex_failure_is_absent:
  "(map_of (indices s) kb = None
      \<and> (isl (readIndex (files s) (indexPath s kb)) \<or> isl (readChunkMap (files s) (chunkPath s kb)))
      \<longrightarrow> getOrLoadIndex s kb = (None, s))
   \<and> (opt_knowledgeBase options = kb \<and> map_of (indices s) kb = None
      \<and> (isl (readIndex (files s) (indexPath s kb)) \<or> isl (readChunkMap (files s) (chunkPath s kb)))
      \<and> getEmbedding ext (opt_query options) = Inr (Some q)
      \<and> fst (SearchCache_get (md5hex ext) (tGet clk) (searchCache s) kb q (kInput options)) = None
      \<longrightarrow> returned (search ext clk s options) = Inr []
          \<and> queried (search ext clk s options) = None
          \<and> indices (after (search ext clk s options)) = indices s
          \<and> chunkMaps (after (search ext clk s options)) = chunkMaps s)"
proof (intro conjI impI)
  assume "map_of (indices s) kb = None
      \<and> (isl (readIndex (files s) (indexPath s kb)) \<or> isl (readChunkMap (files s) (chunkPath s kb)))"
  then show "getOrLoadIndex s kb = (None, s)" using getOrLoadIndex_failure by blast
next
  assume h: "opt_knowledgeBase options = kb \<and> map_of (indices s) kb = None
      \<and> (isl (readIndex (files s) (indexPath s kb)) \<or> isl (readChunkMap (files s) (chunkPath s kb)))
      \<and> getEmbedding ext (opt_query options) = Inr (Some q)
      \<and> fst (SearchCache_get (md5hex ext) (tGet clk) (searchCache s) kb q (kInput options)) = None"
  then obtain c' where g: "SearchCache_get (md5hex ext) (tGet clk) (searchCache s)
      (opt_knowledgeBase options) q (kInput options) = (None, c')"
    by (metis prod.collapse)
  have "getOrLoadIndex (s\<lparr>searchCache := c'\<rparr>) kb = (None, s\<lparr>searchCache := c'\<rparr>)"
    using h by (intro getOrLoadIndex_failure) (simp_all add: indexPath_def chunkPath_def)
  with h g have f: "search ext clk s options =
      \<lparr>returned = Inr [], after = s\<lparr>searchCache := c'\<rparr>, queried = None\<rparr>"
    using search_absent by blast
  show "returned (search ext clk s options) = Inr []" by (simp add: f)
  show "queried (search ext clk s options) = None" by (simp add: f)
  show "indices (after (search ext clk s options)) = indices s" by (simp add: f)
  show "chunkMaps (after (search ext clk s options)) = chunkMaps s" by (simp add: f)
qed

theorem getOrLoadIndex_failure_is_absent_witness:
  "map_of (indices corruptService) ''kb'' = None
   \<and> isl (readChunkMap (files corruptService) (chunkPath corruptService ''kb''))
   \<and> opt_knowledgeBase (exampleQuery None None) = ''kb''
   \<and> getEmbedding exampleWorld (opt_query (exampleQuery None None)) = Inr (Some [1])
   \<and> fst (SearchCache_get (md5hex exampleWorld) (tGet exampleClock) (searchCache corruptService)
            ''kb'' [1] (kInput (exampleQuery None None))) = None
   \<and> getOrLoadIndex corruptService ''kb'' = (None, corruptService)
   \<and> returned (search exampleWorld exampleClock corruptService (exampleQuery None None)) = Inr []"
proof -
  let ?o = "exampleQuery None None"
  have a: "map_of (indices corruptService) ''kb'' = None"
    by (simp add: corruptService_def emptyService_def)
  have b: "isl (readChunkMap (files corruptService) (chunkPath corruptService ''kb''))"
    by (simp add: corrupt_reads)
  have c: "opt_knowledgeBase ?o = ''kb''" by (simp add: exampleQuery_def)
  have e: "getEmbedding exampleWorld (opt_query ?o) = Inr (Some [1])"
    by (simp add: getEmbedding_def ex_embeddings exampleQuery_def)
  have m: "fst (SearchCache_get (md5hex exampleWorld) (tGet exampleClock) (searchCache corruptService)
            ''kb'' [1] (kInput ?o)) = None"
    by (simp add: corruptService_def emptyService_def SearchCache_get_def)
  note main = getOrLoadIndex_failure_is_absent[of corruptService "''kb''" ?o exampleWorld "[1]"
      exampleClock]
  from main a b have 1: "getOrLoadIndex corruptService ''kb'' = (None, corruptService)" by blast
  from main a b c e m have 2: "returned (search exampleWorld exampleClock corruptService ?o) = Inr []"
    by blast
  show ?thesis using a b c e m 1 2 by blast
qed

theorem malformed_chunk_map_counterexample:
  "readIndex (files corruptService) (indexPath corruptService ''kb'')
     = Inr \<lparr>dim = 1, maxElements = 1024, ef = 150, points = [(0, [1])]\<rparr>
   \<and> readChunkMap (files corruptService) (chunkPath corruptService ''kb'') = Inl JsonSyntaxError
   \<and> getOrLoadIndex corruptService ''kb'' = (None, corruptService)
   \<and> returned (search exampleWorld exampleClock corruptService (exampleQuery None None)) = Inr []
   \<and> getOrLoadIndex emptyService ''kb'' = (None, emptyService)
   \<and> returned (search exampleWorld exampleClock emptyService (exampleQuery None None)) = Inr []"
proof -
  have 1: "getOrLoadIndex corruptService ''kb'' = (None, corruptService)"
    by (simp add: getOrLoadIndex_def corruptService_def emptyService_def readIndex_def
        readChunkMap_def indexPath_def chunkPath_def setEf_def)
  have 2: "returned (search exampleWorld exampleClock corruptService (exampleQuery None None))
      = Inr []"
    by (simp add: corruptService_def emptyService_def search_eval ex_md5 readIndex_def
        readChunkMap_def indexPath_def chunkPath_def setEf_def)
  have 3: "getOrLoadIndex emptyService ''kb'' = (None, emptyService)"
    by (simp add: getOrLoadIndex_def emptyService_def readIndex_def)
  have 4: "returned (search exampleWorld exampleClock emptyService (exampleQuery None None))
      = Inr []"
    by (simp add: emptyService_def search_eval ex_md5 readIndex_def)
  show ?thesis using corrupt_reads 1 2 3 4 by simp
qed


text \<open>
  Claim C3. For every name and prior state, after \<^verbatim>\<open>removeKnowledgeBase(name)\<close> a search
  against the name returns the empty list, neither file of the name remains, and a
  missing file is swallowed, so that the operation is idempotent.

  The code does otherwise in two places (the counterexample below): the cache
  is not touched, so a search can still be answered from it, and the chunk-map file is
  only unlinked after the index file was. What is proved: the call never fails; the
  name is gone from both maps and the index file from the directory; the chunk-map file is
  gone too when the index file was there or the chunk-map file was not; a second call
  changes nothing; and a search for the name that is not answered from the cache returns
  the empty list.
\<close>

theorem removeKnowledgeBase_effects:
  assumes "removeKnowledgeBase s name = (r, s')"
  shows "r = Inr ()
       \<and> map_of (indices s') name = None \<and> map_of (chunkMaps s') name = None
       \<and> searchCache s' = searchCache s
       \<and> files s' (indexPath s' name) = None
       \<and> (files s (indexPath s name) \<noteq> None \<or> files s (chunkPath s name) = None
            \<longrightarrow> files s' (chunkPath s' name) = None)
       \<and> removeKnowledgeBase s' name = (Inr (), s')
       \<and> (opt_knowledgeBase options = name
            \<and> getEmbedding ext (opt_query options) = Inr (Some q)
            \<and> fst (SearchCache_get (md5hex ext) (tGet clk) (searchCache s') name q
                     (kInput options)) = None
            \<longrightarrow> returned (search ext clk s' options) = Inr [])"
proof -
  note st = removeKnowledgeBase_state[OF assms]
  have p: "indexPath s' name = indexPath s name" "chunkPath s' name = chunkPath s name"
    by (simp_all add: indexPath_def chunkPath_def st)
  have i: "map_of (indices s') name = None" "map_of (chunkMaps s') name = None"
    by (simp_all add: st delete_conv')
  have f: "files s' (indexPath s' name) = None" using st(7) p by simp
  have rd: "isl (readIndex (files s') (indexPath s' name))"
    by (simp add: readIndex_def f)
  have srch: "returned (search ext clk s' options) = Inr []"
    if hyp: "opt_knowledgeBase options = name
            \<and> getEmbedding ext (opt_query options) = Inr (Some q)
            \<and> fst (SearchCache_get (md5hex ext) (tGet clk) (searchCache s') name q
                     (kInput options)) = None"
  proof -
    obtain c' where g: "SearchCache_get (md5hex ext) (tGet clk) (searchCache s')
      (opt_knowledgeBase options) q (kInput options) = (None, c')"
      using hyp by (metis prod.collapse)
    have "getOrLoadIndex (s'\<lparr>searchCache := c'\<rparr>) name = (None, s'\<lparr>searchCache := c'\<rparr>)"
      using i rd by (intro getOrLoadIndex_failure) (simp_all add: indexPath_def)
    with hyp g show ?thesis using search_absent by fastforce
  qed
  show ?thesis
    using st(1,5,8,9) i f p removeKnowledgeBase_again[OF assms] srch by auto
qed

theorem removeKnowledgeBase_effects_witness:
  "fst (removeKnowledgeBase populatedService ''kb'') = Inr ()
   \<and> files populatedService (indexPath populatedService ''kb'') \<noteq> None
   \<and> files (snd (removeKnowledgeBase populatedService ''kb''))
        (indexPath (snd (removeKnowledgeBase populatedService ''kb'')) ''kb'') = None
   \<and> files (snd (removeKnowledgeBase populatedService ''kb''))
        (chunkPath (snd (removeKnowledgeBase populatedService ''kb'')) ''kb'') = None
   \<and> opt_knowledgeBase (exampleQuery None None) = ''kb''
   \<and> getEmbedding exampleWorld (opt_query (exampleQuery None None)) = Inr (Some [1])
   \<and> fst (SearchCache_get (md5hex exampleWorld) (tGet exampleClock)
            (searchCache (snd (removeKnowledgeBase populatedService ''kb''))) ''kb'' [1]
            (kInput (exampleQuery None None))) = None
   \<and> returned (search exampleWorld exampleClock (snd (removeKnowledgeBase populatedService ''kb''))
        (exampleQuery None None)) = Inr []"
proof -
  let ?o = "exampleQuery None None"
  let ?s' = "snd (removeKnowledgeBase populatedService ''kb'')"
  have h: "removeKnowledgeBase populatedService ''kb''
      = (fst (removeKnowledgeBase populatedService ''kb''), ?s')" by simp
  note main = removeKnowledgeBase_effects[OF h, of ?o exampleWorld "[1]" exampleClock]
  have a: "files populatedService (indexPath populatedService ''kb'') \<noteq> None"
    by (simp add: populated_value indexPath_def)
  have c: "opt_knowledgeBase ?o = ''kb''" by (simp add: exampleQuery_def)
  have e: "getEmbedding exampleWorld (opt_query ?o) = Inr (Some [1])"
    by (simp add: getEmbedding_def ex_embeddings exampleQuery_def)
  have sc: "searchCache ?s' = searchCache populatedService" using main by blast
  have m: "fst (SearchCache_get (md5hex exampleWorld) (tGet exampleClock) (searchCache ?s')
            ''kb'' [1] (kInput ?o)) = None"
    unfolding sc by (simp add: populated_value SearchCache_get_def)
  from main a c e m show ?thesis by blast
qed

theorem removeKnowledgeBase_counterexample:
  "fst (removeKnowledgeBase cachedService ''kb'') = Inr ()
   \<and> map res_score (projr (returned
        (search exampleWorld exampleClock (snd (removeKnowledgeBase cachedService ''kb''))
           (exampleQuery (Some 2) None)))) = [1, 1 / 2]
   \<and> files orphanService (indexPath orphanService ''kb'') = None
   \<and> files orphanService (chunkPath orphanService ''kb'') \<noteq> None
   \<and> files (snd (removeKnowledgeBase orphanService ''kb'')) (chunkPath orphanService ''kb'') \<noteq> None"
proof -
  have 1: "fst (removeKnowledgeBase cachedService ''kb'') = Inr ()"
    by (simp add: cached_value populated_value remove_eval)
  have 2: "map res_score (projr (returned
        (search exampleWorld exampleClock (snd (removeKnowledgeBase cachedService ''kb''))
           (exampleQuery (Some 2) None)))) = [1, 1 / 2]"
    by (simp add: cached_value populated_value remove_eval search_eval ex_md5)
  have 3: "files orphanService (indexPath orphanService ''kb'') = None"
    "files orphanService (chunkPath orphanService ''kb'') \<noteq> None"
    "files (snd (removeKnowledgeBase orphanService ''kb'')) (chunkPath orphanService ''kb'') \<noteq> None"
    by (simp_all add: orphanService_def cached_value populated_value remove_eval)
  show ?thesis using 1 2 3 by blast
qed






text \<open>
  Claim C5. When the cache holds \<open>maxSize\<close> entries, storing one more entry evicts exactly
  the entry inserted earliest, and does so even if that entry was just read by a
  successful \<^verbatim>\<open>get\<close>: a hit leaves the order of the map as it is. The cache is a
  \<^verbatim>\<open>Map\<close> whose keys are distinct and, being cache keys, not empty.
\<close>

theorem SearchCache_set_evicts_earliest:
  assumes "distinct (map fst (cache c))" and "[] \<notin> fst ` set (cache c)"
    and "int (length (cache c)) = maxSize c" and "cache c = (k1, e1) # rest"
    and "getCacheKey md5 kb q k \<notin> fst ` set (cache c)"
  shows "cache (SearchCache_set md5 now c kb q k res) =
           rest @ [(getCacheKey md5 kb q k, \<lparr>result = res, timestamp = now\<rparr>)]
         \<and> (\<forall>t kb1 q1 n1 r c'.
               SearchCache_get md5 t c kb1 q1 n1 = (Some r, c') \<and> getCacheKey md5 kb1 q1 n1 = k1
               \<longrightarrow> cache c' = cache c
                   \<and> cache (SearchCache_set md5 now c' kb q k res) =
                       rest @ [(getCacheKey md5 kb q k, \<lparr>result = res, timestamp = now\<rparr>)])"
proof -
  let ?key = "getCacheKey md5 kb q k"
  have k1: "k1 \<noteq> []" using assms(2,4) by auto
  have del: "AList.delete k1 (cache c) = rest"
    using assms(1,4) delete_first_distinct by metis
  have fresh: "?key \<notin> fst ` set rest" using assms(4,5) by auto
  have main: "cache d = cache c \<Longrightarrow> maxSize d = maxSize c \<Longrightarrow>
     cache (SearchCache_set md5 now d kb q k res) = rest @ [(?key, \<lparr>result = res, timestamp = now\<rparr>)]" for d
    using assms(3,4) k1 del fresh
    by (simp add: SearchCache_set_def Let_def update_fresh_append)
  show ?thesis
    using main[of c] main SearchCache_get_hit by blast
qed

theorem SearchCache_set_evicts_earliest_witness:
  "distinct (map fst (cache fullCache)) \<and> [] \<notin> fst ` set (cache fullCache)
   \<and> int (length (cache fullCache)) = maxSize fullCache
   \<and> cache fullCache = (''a-h-1'', \<lparr>result = [], timestamp = 0\<rparr>)
                        # [(''b-h-1'', \<lparr>result = [], timestamp = 50\<rparr>)]
   \<and> getCacheKey (\<lambda>v. ''h'') ''c'' [] 1 \<notin> fst ` set (cache fullCache)
   \<and> SearchCache_get (\<lambda>v. ''h'') 100 fullCache ''a'' [] 1 = (Some [], fullCache\<lparr>hits := 1\<rparr>)
   \<and> getCacheKey (\<lambda>v. ''h'') ''a'' [] 1 = ''a-h-1''
   \<and> cache (SearchCache_set (\<lambda>v. ''h'') 200 fullCache ''c'' [] 1 []) =
        [(''b-h-1'', \<lparr>result = [], timestamp = 50\<rparr>), (''c-h-1'', \<lparr>result = [], timestamp = 200\<rparr>)]
   \<and> cache (SearchCache_set (\<lambda>v. ''h'') 200 (fullCache\<lparr>hits := 1\<rparr>) ''c'' [] 1 []) =
        [(''b-h-1'', \<lparr>result = [], timestamp = 50\<rparr>), (''c-h-1'', \<lparr>result = [], timestamp = 200\<rparr>)]"
proof -
  let ?md5 = "\<lambda>v::vector. ''h''"
  have 1: "distinct (map fst (cache fullCache))" "[] \<notin> fst ` set (cache fullCache)"
    "int (length (cache fullCache)) = maxSize fullCache"
    "cache fullCache = (''a-h-1'', \<lparr>result = [], timestamp = 0\<rparr>)
                        # [(''b-h-1'', \<lparr>result = [], timestamp = 50\<rparr>)]"
    by (simp_all add: fullCache_def)
  have 2: "getCacheKey ?md5 ''c'' [] 1 \<notin> fst ` set (cache fullCache)"
    by (simp add: fullCache_def cache_eval)
  have 3: "SearchCache_get ?md5 100 fullCache ''a'' [] 1 = (Some [], fullCache\<lparr>hits := 1\<rparr>)"
    by (simp add: fullCache_def cache_eval)
  have 4: "getCacheKey ?md5 ''a'' [] 1 = ''a-h-1''" by (simp add: cache_eval)
  have 5: "getCacheKey ?md5 ''c'' [] 1 = ''c-h-1''" by (simp add: cache_eval)
  note main = SearchCache_set_evicts_earliest[OF 1(1) 1(2) 1(3) 1(4) 2, of 200 "[]"]
  from main have a: "cache (SearchCache_set ?md5 200 fullCache ''c'' [] 1 []) =
        [(''b-h-1'', \<lparr>result = [], timestamp = 50\<rparr>), (''c-h-1'', \<lparr>result = [], timestamp = 200\<rparr>)]"
    unfolding 5 by simp
  from main[THEN conjunct2, rule_format, of 100 "''a''" "[]" 1 "[]" "fullCache\<lparr>hits := 1\<rparr>"] 3 4
  have b: "cache (SearchCache_set ?md5 200 (fullCache\<lparr>hits := 1\<rparr>) ''c'' [] 1 []) =
        [(''b-h-1'', \<lparr>result = [], timestamp = 50\<rparr>), (''c-h-1'', \<lparr>result = [], timestamp = 200\<rparr>)]"
    by (simp add: 5)
  show ?thesis using 1 2 3 4 a b by blast
qed





text \<open>
  Claim C7. For every neighbour the index returns at distance \<open>d \<ge> 0\<close>, the score of its
  result is \<open>1 / (1 + d)\<close>: the results of a search that queried the index are the
  neighbours in order, each turned into a result with that score, those below the
  threshold left out. Distance 0 gives score 1, the score lies in \<open>[0, 1]\<close>, and it
  decreases strictly as the distance grows (in exact arithmetic).
\<close>

theorem search_score_of_distance:
  assumes "getEmbedding ext (opt_query options) = Inr (Some q)"
    and "queried (search ext clk s options) = Some (index, k)"
    and "searchKnn ext index q k = Inr ps"
  shows "returned (search ext clk s options) =
           Inr (filter (\<lambda>r. similarityThreshold options \<le> res_score r)
                  (map (toResult (chunkMapOf (after (search ext clk s options))
                                    (opt_knowledgeBase options))) ps))
       \<and> map res_score (projr (returned (search ext clk s options))) =
           filter (\<lambda>x. similarityThreshold options \<le> x) (map (\<lambda>(n, d). 1 / (1 + d)) ps)
       \<and> (\<forall>n d. res_score (toResult cm (n, d)) = 1 / (1 + d))
       \<and> (\<forall>n. res_score (toResult cm (n, 0)) = 1)
       \<and> (\<forall>n d. 0 \<le> d \<longrightarrow> 0 \<le> res_score (toResult cm (n, d))
                              \<and> res_score (toResult cm (n, d)) \<le> 1)
       \<and> (\<forall>n n' d d'. 0 \<le> d \<and> d < d' \<longrightarrow>
              res_score (toResult cm (n', d')) < res_score (toResult cm (n, d)))"
proof -
  from search_queried[OF assms(2)] assms(1) obtain c' s2 where
    g: "SearchCache_get (md5hex ext) (tGet clk) (searchCache s) (opt_knowledgeBase options) q
               (kInput options) = (None, c')"
    and l: "getOrLoadIndex (s\<lparr>searchCache := c'\<rparr>) (opt_knowledgeBase options) = (Some index, s2)"
    and k: "k = effectiveK (kInput options) (getCurrentCount index) (getMaxElements index)"
    by auto
  note f = search_found(2)[OF assms(1) g l k assms(3)]
  have cm: "chunkMapOf (after (search ext clk s options)) (opt_knowledgeBase options)
      = chunkMapOf s2 (opt_knowledgeBase options)"
    by (simp add: f chunkMapOf_def recordMetric_frame)
  have a: "returned (search ext clk s options) =
           Inr (filter (\<lambda>r. similarityThreshold options \<le> res_score r)
                  (map (toResult (chunkMapOf (after (search ext clk s options))
                                    (opt_knowledgeBase options))) ps))"
    unfolding cm by (simp add: f)
  have b: "map res_score (filter (\<lambda>r. t \<le> res_score r) (map (toResult m) xs)) =
           filter (\<lambda>x. t \<le> x) (map (\<lambda>(n, d). 1 / (1 + d)) xs)" for t m xs
    by (induction xs) (auto simp: score_toResult)
  have c: "0 \<le> d \<Longrightarrow> d < d' \<Longrightarrow> 1 / (1 + d') < 1 / (1 + d)" for d d' :: real
    by (simp add: frac_less2)
  show ?thesis
    using a b c by (simp add: score_toResult)
qed

theorem search_score_of_distance_witness:
  "getEmbedding exampleWorld (opt_query (exampleQuery (Some 2) None)) = Inr (Some [1])
   \<and> queried (search exampleWorld exampleClock populatedService (exampleQuery (Some 2) None))
       = Some (\<lparr>dim = 1, maxElements = 1024, ef = 150, points = [(0, [1]), (1, [2])]\<rparr>, 2)
   \<and> searchKnn exampleWorld \<lparr>dim = 1, maxElements = 1024, ef = 150, points = [(0, [1]), (1, [2])]\<rparr>
         [1] 2 = Inr [(0, 0), (1, 1)]
   \<and> map res_score (projr (returned
         (search exampleWorld exampleClock populatedService (exampleQuery (Some 2) None))))
       = [1 / (1 + 0), 1 / (1 + 1)]"
proof -
  let ?o = "exampleQuery (Some 2) None"
  let ?ix = "\<lparr>dim = 1, maxElements = 1024, ef = 150, points = [(0, [1]), (1, [2::real])]\<rparr>"
  have e: "getEmbedding exampleWorld (opt_query ?o) = Inr (Some [1])"
    by (simp add: getEmbedding_def ex_embeddings exampleQuery_def)
  have q: "queried (search exampleWorld exampleClock populatedService ?o) = Some (?ix, 2)"
    by (simp add: populated_value search_eval ex_md5 ex_knn upt2)
  have n: "searchKnn exampleWorld ?ix [1] 2 = Inr [(0, 0), (1, 1)]"
    by (simp add: ex_knn upt2)
  have t: "similarityThreshold ?o = 0"
    by (simp add: similarityThreshold_def exampleQuery_def)
  from search_score_of_distance[OF e q n, of Map.empty, THEN conjunct2, THEN conjunct1]
  have "map res_score (projr (returned (search exampleWorld exampleClock populatedService ?o)))
       = filter (\<lambda>x. similarityThreshold ?o \<le> x) (map (\<lambda>(n, d). 1 / (1 + d)) [(0::nat, 0), (1, 1)])"
    .
  then have "map res_score (projr (returned (search exampleWorld exampleClock populatedService ?o)))
       = [1 / (1 + 0), 1 / (1 + 1)]"
    by (simp add: t)
  with e q n show ?thesis by blast
qed


text \<open>
  Claim C8. Whenever search queries an index, the count passed is
  \<open>clamp(requestedK, 1, min(currentCount, capacity))\<close>, and an index that holds no point is
  never queried.

  The code does otherwise (the counterexample below): a requested \<open>k\<close> of 0
  becomes 10 before the clamp, and an index without points is queried, with count 1.
  What is proved: the count passed is \<open>effectiveK\<close> of \<open>kInput\<close> (the requested \<open>k\<close>, or 10
  when it is 0 or absent), it is at least 1, the index queried is the one registered
  under the name; when the index holds no point the count is 1, and when it holds one
  and its capacity is not 0 the count is the clamp of \<open>kInput\<close>.
\<close>

theorem search_query_count:
  assumes "queried (search ext clk s options) = Some (index, k)"
  shows "k = effectiveK (kInput options) (getCurrentCount index) (getMaxElements index)
       \<and> 1 \<le> k
       \<and> map_of (indices (after (search ext clk s options))) (opt_knowledgeBase options) = Some index
       \<and> (getCurrentCount index = 0 \<longrightarrow> k = 1)
       \<and> (1 \<le> getCurrentCount index \<and> 1 \<le> getMaxElements index \<longrightarrow>
            k = specClamp (kInput options) 1
                  (min (int (getCurrentCount index)) (int (getMaxElements index))))"
proof -
  from search_queried[OF assms] obtain q c' s2 where
    e: "getEmbedding ext (opt_query options) = Inr (Some q)"
    and g: "SearchCache_get (md5hex ext) (tGet clk) (searchCache s) (opt_knowledgeBase options) q
               (kInput options) = (None, c')"
    and l: "getOrLoadIndex (s\<lparr>searchCache := c'\<rparr>) (opt_knowledgeBase options) = (Some index, s2)"
    and k: "k = effectiveK (kInput options) (getCurrentCount index) (getMaxElements index)"
    by blast
  have reg: "map_of (indices s2) (opt_knowledgeBase options) = Some index"
    using getOrLoadIndex_registered[OF l] by simp
  have ind: "map_of (indices (after (search ext clk s options))) (opt_knowledgeBase options)
      = Some index"
  proof (cases "searchKnn ext index q k")
    case (Inl err)
    from search_found(1)[OF e g l k Inl] reg show ?thesis by simp
  next
    case (Inr ps)
    from search_found(2)[OF e g l k Inr] reg show ?thesis by (simp add: recordMetric_frame)
  qed
  show ?thesis
    using k ind effectiveK_bounds(1) effectiveK_empty effectiveK_clamp by simp
qed

theorem search_query_count_witness:
  "queried (search exampleWorld exampleClock populatedService (exampleQuery (Some 5) None))
     = Some (\<lparr>dim = 1, maxElements = 1024, ef = 150, points = [(0, [1]), (1, [2])]\<rparr>, 2)
   \<and> (2::int) = specClamp 5 1 (min 2 1024)
   \<and> queried (search exampleWorld exampleClock emptyIndexService (exampleQuery (Some 5) None))
     = Some (\<lparr>dim = 1, maxElements = 1024, ef = 150, points = []\<rparr>, 1)"
proof -
  have a: "queried (search exampleWorld exampleClock populatedService (exampleQuery (Some 5) None))
     = Some (\<lparr>dim = 1, maxElements = 1024, ef = 150, points = [(0, [1]), (1, [2])]\<rparr>, 2)"
    by (simp add: populated_value search_eval ex_md5 ex_knn upt2)
  have b: "kInput (exampleQuery (Some 5) None) = 5"
    by (simp add: kInput_def exampleQuery_def)
  from search_query_count[OF a] b have "(2::int) = specClamp 5 1 (min 2 1024)"
    by (simp add: getCurrentCount_def getMaxElements_def)
  with a ex_query_empty show ?thesis by blast
qed

theorem search_query_count_counterexample:
  "queried (search exampleWorld exampleClock populatedService (exampleQuery (Some 0) None))
     = Some (\<lparr>dim = 1, maxElements = 1024, ef = 150, points = [(0, [1]), (1, [2])]\<rparr>, 2)
   \<and> specClamp 0 1 (min 2 1024) = 1
   \<and> queried (search exampleWorld exampleClock emptyIndexService (exampleQuery (Some 5) None))
     = Some (\<lparr>dim = 1, maxElements = 1024, ef = 150, points = []\<rparr>, 1)
   \<and> getCurrentCount \<lparr>dim = 1, maxElements = 1024, ef = 150, points = []\<rparr> = 0"
  by (simp add: ex_query_default ex_query_empty specClamp_def getCurrentCount_def)


text \<open>
  Claim C9. For every id, \<^verbatim>\<open>removeDocument(id)\<close> leaves the whole state unchanged;
  consequently \<^verbatim>\<open>updateDocument(id, partial)\<close> with a knowledge base and a content adds a
  chunk for the id while every chunk stored before remains: a duplicate, not a
  replacement.

  \<^verbatim>\<open>removeDocument\<close> is the identity (\<open>removeDocument_noop\<close>), and for a knowledge base held
  in memory \<^verbatim>\<open>updateDocument\<close> stores the new chunk at the ordinal \<open>currentCount\<close> and
  leaves every other ordinal as it was (\<open>updateDocument_appends\<close>). But
  \<^verbatim>\<open>addDocumentsToKB\<close> reads the two maps in memory and never loads a knowledge base from
  the working directory, as \<^verbatim>\<open>search\<close> does through \<^verbatim>\<open>getOrLoadIndex\<close>. The code is
  evaluated below on a service started over the files of \<open>kb\<close>, which hold the chunks \<open>a\<close>
  and \<open>doc-1\<close>: a search loads both chunks, whereas updating \<open>a\<close> creates a new index with
  one point and overwrites both files with the new chunk alone, so that the chunk stored
  for \<open>a\<close> before, and \<open>doc-1\<close> with it, is gone from memory and from the directory.
\<close>

theorem updateDocument_replaces_persisted:
  "indices restartedService = [] \<and> chunkMaps restartedService = []
   \<and> files restartedService ''store/kb.chunks.json''
       = Some (ChunkJson
           [0 \<mapsto> \<lparr>chunk_id = ''a'', chunk_text = ''x'', chunk_source = JUndefined,
                    chunk_timestamp = JDate 0, chunk_metadata = None\<rparr>,
            1 \<mapsto> \<lparr>chunk_id = ''doc-1'', chunk_text = ''yy'', chunk_source = JUndefined,
                    chunk_timestamp = JDate 0, chunk_metadata = None\<rparr>])
   \<and> map_of (chunkMaps (after (search exampleWorld exampleClock restartedService
                                   (exampleQuery (Some 2) None)))) ''kb''
       = Some [0 \<mapsto> \<lparr>chunk_id = ''a'', chunk_text = ''x'', chunk_source = JUndefined,
                        chunk_timestamp = JDate 0, chunk_metadata = None\<rparr>,
               1 \<mapsto> \<lparr>chunk_id = ''doc-1'', chunk_text = ''yy'', chunk_source = JUndefined,
                        chunk_timestamp = JDate 0, chunk_metadata = None\<rparr>]
   \<and> fst (updateDocument exampleWorld 7 restartedService ''a'' examplePatch) = Inr ()
   \<and> map_of (chunkMaps (snd (updateDocument exampleWorld 7 restartedService ''a'' examplePatch)))
        ''kb''
       = Some [0 \<mapsto> \<lparr>chunk_id = ''a'', chunk_text = ''zzz'', chunk_source = JUndefined,
                        chunk_timestamp = JDate 7, chunk_metadata = None\<rparr>]
   \<and> files (snd (updateDocument exampleWorld 7 restartedService ''a'' examplePatch))
        ''store/kb.chunks.json''
       = Some (ChunkJson
           [0 \<mapsto> \<lparr>chunk_id = ''a'', chunk_text = ''zzz'', chunk_source = JUndefined,
                    chunk_timestamp = JDate 7, chunk_metadata = None\<rparr>])
   \<and> files (snd (updateDocument exampleWorld 7 restartedService ''a'' examplePatch))
        ''store/kb.hnsw''
       = Some (IndexBytes \<lparr>dim = 1, maxElements = 1024, ef = 150, points = [(0, [3])]\<rparr>)"
proof -
  have u: "updateDocument exampleWorld 7 restartedService ''a'' examplePatch =
     (Inr (),
      restartedService
        \<lparr>indices := [(''kb'', \<lparr>dim = 1, maxElements = 1024, ef = 150, points = [(0, [3])]\<rparr>)],
         chunkMaps := [(''kb'',
            [0 \<mapsto> \<lparr>chunk_id = ''a'', chunk_text = ''zzz'', chunk_source = JUndefined,
                     chunk_timestamp = JDate 7, chunk_metadata = None\<rparr>])],
         files := [''store/kb.hnsw'' \<mapsto> IndexBytes \<lparr>dim = 1, maxElements = 1024, ef = 150,
                                                       points = [(0, [3])]\<rparr>,
                   ''store/kb.chunks.json'' \<mapsto> ChunkJson
            [0 \<mapsto> \<lparr>chunk_id = ''a'', chunk_text = ''zzz'', chunk_source = JUndefined,
                     chunk_timestamp = JDate 7, chunk_metadata = None\<rparr>]]\<rparr>)"
    by (simp add: restarted_value updateDocument_def removeDocument_def addDocument_def
      examplePatch_def addDocuments_def groupByKnowledgeBase_def
      addDocumentsToKB_def ex_embeddings chunkMapOf_def Let_def
      setEf_def initIndex_def getDimensions_def getCurrentCount_def addPoint_def
      saveIndex_def saveChunkMap_def makeChunk_def getProp_def natToString.simps
      indexPath_def chunkPath_def)
  have l: "map_of (chunkMaps (after (search exampleWorld exampleClock restartedService
                                   (exampleQuery (Some 2) None)))) ''kb''
       = Some [0 \<mapsto> \<lparr>chunk_id = ''a'', chunk_text = ''x'', chunk_source = JUndefined,
                        chunk_timestamp = JDate 0, chunk_metadata = None\<rparr>,
               1 \<mapsto> \<lparr>chunk_id = ''doc-1'', chunk_text = ''yy'', chunk_source = JUndefined,
                        chunk_timestamp = JDate 0, chunk_metadata = None\<rparr>]"
    by (simp add: restarted_value search_eval ex_md5 ex_knn upt2 readIndex_def readChunkMap_def
      indexPath_def chunkPath_def setEf_def)
  show ?thesis
    unfolding u snd_conv fst_conv
    by (simp add: l) (simp add: restarted_value)
qed



text \<open>
  Claim C10. A search answered from the cache returns the cached list and leaves
  \<open>totalSearches\<close> and the average latency, as \<^verbatim>\<open>getStatus\<close> reports them, as they were;
  whenever a search changes the counters it was not answered from the cache, and it
  counted once.
\<close>

theorem search_cache_hit_metrics:
  "(getEmbedding ext (opt_query options) = Inr (Some q)
      \<and> SearchCache_get (md5hex ext) (tGet clk) (searchCache s) (opt_knowledgeBase options) q
            (kInput options) = (Some res, c')
      \<longrightarrow> returned (search ext clk s options) = Inr res
          \<and> queried (search ext clk s options) = None
          \<and> stats (after (search ext clk s options)) = stats s
          \<and> m_totalSearches (metrics (getStatus (after (search ext clk s options))))
              = m_totalSearches (metrics (getStatus s))
          \<and> m_avgSearchTime (metrics (getStatus (after (search ext clk s options))))
              = m_avgSearchTime (metrics (getStatus s)))
   \<and> (stats (after (search ext clk s options)) \<noteq> stats s
      \<longrightarrow> (\<exists>v. getEmbedding ext (opt_query options) = Inr (Some v)
                \<and> fst (SearchCache_get (md5hex ext) (tGet clk) (searchCache s)
                         (opt_knowledgeBase options) v (kInput options)) = None)
          \<and> totalSearches (stats (after (search ext clk s options)))
              = totalSearches (stats s) + 1)"
proof (intro conjI impI)
  assume h: "getEmbedding ext (opt_query options) = Inr (Some q)
      \<and> SearchCache_get (md5hex ext) (tGet clk) (searchCache s) (opt_knowledgeBase options) q
            (kInput options) = (Some res, c')"
  then have f: "search ext clk s options =
           \<lparr>returned = Inr res, after = s\<lparr>searchCache := c'\<rparr>, queried = None\<rparr>"
    using search_hit by blast
  show "returned (search ext clk s options) = Inr res" by (simp add: f)
  show "queried (search ext clk s options) = None" by (simp add: f)
  show "stats (after (search ext clk s options)) = stats s" by (simp add: f)
  show "m_totalSearches (metrics (getStatus (after (search ext clk s options))))
              = m_totalSearches (metrics (getStatus s))" by (simp add: f getStatus_def Let_def)
  show "m_avgSearchTime (metrics (getStatus (after (search ext clk s options))))
              = m_avgSearchTime (metrics (getStatus s))" by (simp add: f getStatus_def Let_def)
next
  assume h: "stats (after (search ext clk s options)) \<noteq> stats s"
  have st: "getOrLoadIndex a kb = (l, b) \<Longrightarrow> stats b = stats a" for a kb l b
    by (auto simp: getOrLoadIndex_def Let_def split: option.splits sum.splits)
  from h show "\<exists>v. getEmbedding ext (opt_query options) = Inr (Some v)
                \<and> fst (SearchCache_get (md5hex ext) (tGet clk) (searchCache s)
                         (opt_knowledgeBase options) v (kInput options)) = None"
    by (auto simp: search_def Let_def split: sum.splits option.splits prod.splits)
  from h show "totalSearches (stats (after (search ext clk s options)))
              = totalSearches (stats s) + 1"
    by (auto simp: search_def Let_def recordMetric_def split: sum.splits option.splits prod.splits
        dest: st)
qed

theorem search_cache_hit_metrics_witness:
  "getEmbedding exampleWorld (opt_query (exampleQuery (Some 2) None)) = Inr (Some [1])
   \<and> fst (SearchCache_get (md5hex exampleWorld) (tGet exampleClock) (searchCache cachedService)
        (opt_knowledgeBase (exampleQuery (Some 2) None)) [1] (kInput (exampleQuery (Some 2) None)))
      = Some [\<lparr>res_id = ''a'', res_content = ''x'', res_score = 1,
                 res_metadata = [(''source'', JUndefined), (''timestamp'', JDate 0)]\<rparr>,
                \<lparr>res_id = ''doc-1'', res_content = ''yy'', res_score = 1 / 2,
                 res_metadata = [(''source'', JUndefined), (''timestamp'', JDate 0)]\<rparr>]
   \<and> stats (after (search exampleWorld exampleClock cachedService (exampleQuery (Some 2) None)))
      = \<lparr>totalSearches = 1, avgSearchTime = 4\<rparr>
   \<and> stats (after (search exampleWorld exampleClock populatedService (exampleQuery (Some 2) None)))
      \<noteq> stats populatedService
   \<and> totalSearches (stats (after
        (search exampleWorld exampleClock populatedService (exampleQuery (Some 2) None)))) = 1"
proof -
  let ?o = "exampleQuery (Some 2) None"
  let ?rs = "[\<lparr>res_id = ''a'', res_content = ''x'', res_score = 1,
                 res_metadata = [(''source'', JUndefined), (''timestamp'', JDate 0)]\<rparr>,
                \<lparr>res_id = ''doc-1'', res_content = ''yy'', res_score = 1 / 2,
                 res_metadata = [(''source'', JUndefined), (''timestamp'', JDate 0)]\<rparr>]"
  have e: "getEmbedding exampleWorld (opt_query ?o) = Inr (Some [1])"
    by (simp add: getEmbedding_def ex_embeddings exampleQuery_def)
  obtain c' where g: "SearchCache_get (md5hex exampleWorld) (tGet exampleClock)
        (searchCache cachedService) (opt_knowledgeBase ?o) [1] (kInput ?o) = (Some ?rs, c')"
    by (simp add: cached_value SearchCache_get_def getCacheKey_def numberToString_def
        natToString.simps kInput_def exampleQuery_def exampleClock_def ex_md5)
  have s0: "stats cachedService = \<lparr>totalSearches = 1, avgSearchTime = 4\<rparr>"
    by (simp add: cached_value)
  have p0: "stats populatedService = \<lparr>totalSearches = 0, avgSearchTime = 0\<rparr>"
    by (simp add: populated_value)
  have ne: "stats (after (search exampleWorld exampleClock populatedService ?o))
      \<noteq> stats populatedService"
    using s0 p0 by (simp add: cachedService_def[symmetric])
  note main = search_cache_hit_metrics[of exampleWorld ?o "[1]" exampleClock cachedService ?rs c']
  note main2 = search_cache_hit_metrics[of exampleWorld ?o "[1]" exampleClock populatedService ?rs c']
  from main e g have a: "stats (after (search exampleWorld exampleClock cachedService ?o))
      = stats cachedService" by blast
  from main2 ne have b: "totalSearches (stats (after
        (search exampleWorld exampleClock populatedService ?o))) = totalSearches (stats populatedService) + 1"
    by blast
  show ?thesis using e g a b ne s0 p0 by simp
qed


end
